theory Spec2Isabelle
  imports Main
begin

section \<open>Time: naive datetimes and timedeltas\<close>

text \<open>
  Both programs work with Python's naive \<^verbatim>\<open>datetime\<close> and \<^verbatim>\<open>timedelta\<close>, which have
  microsecond resolution and exact integer arithmetic. A \<open>datetime\<close> is modelled as the
  number of microseconds since the midnight that starts day ordinal 0 of the proleptic
  Gregorian calendar (so that \<open>toordinal\<close> is Python's \<^verbatim>\<open>date.toordinal()\<close>, and
  0001-01-01, a Monday, is day 1); a \<open>timedelta\<close> is a number of microseconds.
  Comparison, addition and subtraction are those of the integers.
\<close>

type_synonym datetime = int
type_synonym timedelta = int

definition SECOND :: timedelta where "SECOND = 1000000"
definition MINUTE :: timedelta where "MINUTE = 60 * SECOND"
definition HOUR :: timedelta where "HOUR = 60 * MINUTE"
definition DAY :: timedelta where "DAY = 24 * HOUR"
definition WEEK :: timedelta where "WEEK = 7 * DAY"

definition toordinal :: "datetime \<Rightarrow> int" where
  "toordinal dt = dt div DAY"

text \<open>\<^verbatim>\<open>datetime.weekday()\<close>: Monday is 0, Sunday is 6.\<close>

definition weekday :: "datetime \<Rightarrow> int" where
  "weekday dt = (toordinal dt + 6) mod 7"


text \<open>
  Python's datetimes are the instants of the days from ordinal 1 (0001-01-01) to ordinal
  3652059 (9999-12-31); an addition or subtraction of the code whose result leaves these
  days raises \<^verbatim>\<open>OverflowError\<close>. The definitions below compute with all integers; a
  property that needs the code's arithmetic to stay within these days says so.
\<close>

definition MINORDINAL :: int where "MINORDINAL = 1"
definition MAXORDINAL :: int where "MAXORDINAL = 3652059"

datatype error = ValueError | KeyError

text \<open>
  \<^verbatim>\<open>dt.replace(hour=hour, minute=minute, second=0, microsecond=0)\<close> keeps the date,
  and raises ValueError when the hour or the minute is out of range.
\<close>

definition replace_hm :: "datetime \<Rightarrow> int \<Rightarrow> int \<Rightarrow> error + datetime" where
  "replace_hm dt hour minute =
     (if 0 \<le> hour \<and> hour < 24 \<and> 0 \<le> minute \<and> minute < 60
      then Inr (toordinal dt * DAY + hour * HOUR + minute * MINUTE)
      else Inl ValueError)"

section \<open>boss\_notifier\_app.py: the occurrence resolver\<close>

definition DAY_MAPPING :: "string \<rightharpoonup> int" where
  "DAY_MAPPING = [''Monday'' \<mapsto> 0, ''Tuesday'' \<mapsto> 1, ''Wednesday'' \<mapsto> 2,
     ''Thursday'' \<mapsto> 3, ''Friday'' \<mapsto> 4, ''Saturday'' \<mapsto> 5, ''Sunday'' \<mapsto> 6]"

text \<open>
  One entry of a boss's \<^verbatim>\<open>spawn_times\<close>, with its two keys. The field \<open>time\<close> holds the
  integers that \<^verbatim>\<open>map(int, spawn['time'].split(':'))\<close> yields, so that \<^verbatim>\<open>"14:30"\<close> is
  \<open>[14, 30]\<close>; the conversion of the text itself, which raises on a part that is not a
  number, is not modelled.
\<close>

record spawn =
  day :: string
  time :: "int list"

text \<open>
  The body of the loop of \<^verbatim>\<open>get_next_spawn_time\<close> for one entry: \<open>Inr None\<close> is the
  \<^verbatim>\<open>continue\<close> on an unknown day name, \<open>Inl ValueError\<close> the failing unpacking
  \<^verbatim>\<open>hour, minute = ...\<close> or the failing \<^verbatim>\<open>replace\<close>.
\<close>

definition spawn_datetime_candidate :: "spawn \<Rightarrow> datetime \<Rightarrow> error + datetime option" where
  "spawn_datetime_candidate spawn current_time =
     (case DAY_MAPPING (day spawn) of
        None \<Rightarrow> Inr None
      | Some day_of_week_int \<Rightarrow>
          (case time spawn of
             [hour, minute] \<Rightarrow>
               (let days_diff = (day_of_week_int - weekday current_time + 7) mod 7 in
                case replace_hm (current_time + days_diff * DAY) hour minute of
                  Inl e \<Rightarrow> Inl e
                | Inr candidate \<Rightarrow>
                    Inr (Some (if candidate \<le> current_time then candidate + WEEK
                               else candidate)))
           | _ \<Rightarrow> Inl ValueError))"

fun spawn_loop :: "spawn list \<Rightarrow> datetime \<Rightarrow> datetime option \<Rightarrow> error + datetime option" where
  "spawn_loop [] current_time next_spawn = Inr next_spawn"
| "spawn_loop (spawn # rest) current_time next_spawn =
     (case spawn_datetime_candidate spawn current_time of
        Inl e \<Rightarrow> Inl e
      | Inr None \<Rightarrow> spawn_loop rest current_time next_spawn
      | Inr (Some candidate) \<Rightarrow>
          spawn_loop rest current_time
            (case next_spawn of
               None \<Rightarrow> Some candidate
             | Some n \<Rightarrow> if candidate < n then Some candidate else Some n))"

definition get_next_spawn_time ::
  "string \<Rightarrow> spawn list \<Rightarrow> datetime \<Rightarrow> error + datetime option" where
  "get_next_spawn_time boss_name spawn_times current_time =
     spawn_loop spawn_times current_time None"

section \<open>boss\_notifier\_app.py: the notification worker\<close>

text \<open>
  An entry of \<^verbatim>\<open>boss_data\<close>. \<open>spawn_times\<close> is \<open>None\<close> when the entry has no key
  \<^verbatim>\<open>'spawn_times'\<close>.
\<close>

record boss =
  boss_id :: string
  name :: string
  spawn_times :: "spawn list option"

text \<open>The tuple \<^verbatim>\<open>(boss_id, next_spawn, minutes_before)\<close>.\<close>

type_synonym notification_key = "string \<times> datetime \<times> nat"

text \<open>
  The state of a \<^verbatim>\<open>NotificationWorker\<close>. The two signals are kept as what they carry:
  \<open>sent\<close> lists, in order, the key of every emission of \<^verbatim>\<open>send_notification_signal\<close>
  (the texts of title and message are not modelled), \<open>live_info\<close> is the
  \<^verbatim>\<open>closest_bosses_info\<close> behind the text last emitted through \<^verbatim>\<open>live_info_updated\<close>.
\<close>

record worker =
  is_active :: bool
  notified_spawn_times :: "notification_key set"
  sent :: "notification_key list"
  live_info :: "(string \<times> datetime) list"

definition init_worker :: worker where
  "init_worker = \<lparr>is_active = False, notified_spawn_times = {}, sent = [], live_info = []\<rparr>"



text \<open>\<^verbatim>\<open>timedelta(minutes=1, seconds=5)\<close>, the width of the arming window.\<close>

definition arming_width :: timedelta where
  "arming_width = MINUTE + 5 * SECOND"

text \<open>\<^verbatim>\<open>timedelta(minutes=15)\<close>, the age at which a key leaves the ledger.\<close>

definition prune_retention :: timedelta where
  "prune_retention = 15 * MINUTE"

text \<open>The condition \<^verbatim>\<open>notification_threshold >= time_until_spawn > (notification_threshold - timedelta(minutes=1, seconds=5))\<close>.\<close>

definition in_window :: "datetime \<Rightarrow> nat \<Rightarrow> datetime \<Rightarrow> bool" where
  "in_window next_spawn minutes_before current_time =
     (let notification_threshold = int minutes_before * MINUTE;
          time_until_spawn = next_spawn - current_time
      in notification_threshold \<ge> time_until_spawn
         \<and> time_until_spawn > notification_threshold - arming_width)"

text \<open>The loop over the selected minutes, for one boss and its next spawn.\<close>

fun minutes_loop :: "string \<Rightarrow> datetime \<Rightarrow> datetime \<Rightarrow> nat list \<Rightarrow> worker \<Rightarrow> worker" where
  "minutes_loop b next_spawn current_time [] w = w"
| "minutes_loop b next_spawn current_time (minutes_before # rest) w =
     (if in_window next_spawn minutes_before current_time
      then (let notification_key = (b, next_spawn, minutes_before) in
            if notification_key \<notin> notified_spawn_times w
            then minutes_loop b next_spawn current_time rest
                   (w\<lparr>sent := sent w @ [notification_key],
                      notified_spawn_times := insert notification_key (notified_spawn_times w)\<rparr>)
            else minutes_loop b next_spawn current_time rest w)
      else minutes_loop b next_spawn current_time rest w)"

text \<open>
  One boss in the notification part of \<^verbatim>\<open>run\<close>. An exception of
  \<^verbatim>\<open>get_next_spawn_time\<close> leaves the loop, with the state as it is at that moment.
\<close>

definition notify_boss ::
  "string list \<Rightarrow> nat list \<Rightarrow> datetime \<Rightarrow> boss \<Rightarrow> worker \<Rightarrow> error option \<times> worker" where
  "notify_boss selected_boss_ids selected_minutes current_time b w =
     (if boss_id b \<notin> set selected_boss_ids then (None, w)
      else case spawn_times b of
        None \<Rightarrow> (None, w)
      | Some sts \<Rightarrow>
          if sts = [] then (None, w)
          else (case get_next_spawn_time (name b) sts current_time of
                  Inl e \<Rightarrow> (Some e, w)
                | Inr None \<Rightarrow> (None, w)
                | Inr (Some next_spawn) \<Rightarrow>
                    (None, minutes_loop (boss_id b) next_spawn current_time selected_minutes w)))"

fun notify_loop ::
  "boss list \<Rightarrow> string list \<Rightarrow> nat list \<Rightarrow> datetime \<Rightarrow> worker \<Rightarrow> error option \<times> worker" where
  "notify_loop [] selected_boss_ids selected_minutes current_time w = (None, w)"
| "notify_loop (b # rest) selected_boss_ids selected_minutes current_time w =
     (case notify_boss selected_boss_ids selected_minutes current_time b w of
        (Some e, w') \<Rightarrow> (Some e, w')
      | (None, w') \<Rightarrow> notify_loop rest selected_boss_ids selected_minutes current_time w')"

text \<open>
  The live-information part of \<^verbatim>\<open>run\<close>: the loop that finds the earliest next spawn of
  the selected bosses and the bosses that share it.
\<close>

fun live_info_loop ::
  "boss list \<Rightarrow> string list \<Rightarrow> datetime \<Rightarrow> datetime option \<Rightarrow> (string \<times> datetime) list
     \<Rightarrow> error + (string \<times> datetime) list" where
  "live_info_loop [] selected_boss_ids current_time overall_earliest_spawn closest_bosses_info =
     Inr closest_bosses_info"
| "live_info_loop (b # rest) selected_boss_ids current_time overall_earliest_spawn closest_bosses_info =
     (if boss_id b \<notin> set selected_boss_ids
      then live_info_loop rest selected_boss_ids current_time overall_earliest_spawn closest_bosses_info
      else case spawn_times b of
        None \<Rightarrow> live_info_loop rest selected_boss_ids current_time overall_earliest_spawn closest_bosses_info
      | Some sts \<Rightarrow>
          if sts = []
          then live_info_loop rest selected_boss_ids current_time overall_earliest_spawn closest_bosses_info
          else (case get_next_spawn_time (name b) sts current_time of
                  Inl e \<Rightarrow> Inl e
                | Inr None \<Rightarrow>
                    live_info_loop rest selected_boss_ids current_time overall_earliest_spawn closest_bosses_info
                | Inr (Some next_spawn_for_boss) \<Rightarrow>
                    (case overall_earliest_spawn of
                       None \<Rightarrow>
                         live_info_loop rest selected_boss_ids current_time (Some next_spawn_for_boss)
                           [(name b, next_spawn_for_boss)]
                     | Some earliest \<Rightarrow>
                         if next_spawn_for_boss < earliest
                         then live_info_loop rest selected_boss_ids current_time (Some next_spawn_for_boss)
                                [(name b, next_spawn_for_boss)]
                         else if next_spawn_for_boss = earliest
                         then live_info_loop rest selected_boss_ids current_time overall_earliest_spawn
                                (closest_bosses_info @ [(name b, next_spawn_for_boss)])
                         else live_info_loop rest selected_boss_ids current_time overall_earliest_spawn
                                closest_bosses_info)))"

text \<open>The set comprehension that ends every iteration of \<^verbatim>\<open>run\<close>.\<close>

definition prune :: "datetime \<Rightarrow> notification_key set \<Rightarrow> notification_key set" where
  "prune current_time ledger =
     Set.filter (\<lambda>(b_id, s_time, m_before). s_time > current_time - prune_retention) ledger"

text \<open>
  One iteration of the \<^verbatim>\<open>while True\<close> loop of \<^verbatim>\<open>run\<close>, without the sleep. The selected
  bosses and minutes are what the two callbacks return in this iteration. An exception
  ends the iteration (and the thread) where it is raised.
\<close>

definition tick ::
  "boss list \<Rightarrow> string list \<Rightarrow> nat list \<Rightarrow> datetime \<Rightarrow> worker \<Rightarrow> error option \<times> worker" where
  "tick boss_data selected_boss_ids selected_minutes current_time w =
     (case live_info_loop boss_data selected_boss_ids current_time None [] of
        Inl e \<Rightarrow> (Some e, w)
      | Inr closest_bosses_info \<Rightarrow>
          (let w1 = w\<lparr>live_info := closest_bosses_info\<rparr> in
           case (if is_active w1
                 then notify_loop boss_data selected_boss_ids selected_minutes current_time w1
                 else (None, w1)) of
             (Some e, w2) \<Rightarrow> (Some e, w2)
           | (None, w2) \<Rightarrow>
               (None, w2\<lparr>notified_spawn_times := prune current_time (notified_spawn_times w2)\<rparr>)))"

text \<open>
  A finite prefix of the endless loop: the iterations in order, each with the selection,
  the activation flag (set from the interface between iterations) and the clock reading
  it sees. The loop ends early only by an exception.
\<close>

fun run ::
  "boss list \<Rightarrow> (string list \<times> nat list \<times> bool \<times> datetime) list \<Rightarrow> worker \<Rightarrow> error option \<times> worker" where
  "run boss_data [] w = (None, w)"
| "run boss_data ((selected_boss_ids, selected_minutes, active, current_time) # rest) w =
     (case tick boss_data selected_boss_ids selected_minutes current_time (w\<lparr>is_active := active\<rparr>) of
        (Some e, w') \<Rightarrow> (Some e, w')
      | (None, w') \<Rightarrow> run boss_data rest w')"

section \<open>app.py: the scheduled check\<close>

definition NOTIFICATION_TIMES :: "(string \<times> nat) list" where
  "NOTIFICATION_TIMES = [(''1_min'', 1), (''3_min'', 3), (''5_min'', 5), (''10_min'', 10),
     (''15_min'', 15), (''30_min'', 30), (''60_min'', 60)]"

definition WEEKDAY_MAP :: "(string \<times> int) list" where
  "WEEKDAY_MAP = [(''Monday'', 0), (''Tuesday'', 1), (''Wednesday'', 2), (''Thursday'', 3),
     (''Friday'', 4), (''Saturday'', 5), (''Sunday'', 6),
     (''monday'', 0), (''tuesday'', 1), (''wednesday'', 2), (''thursday'', 3),
     (''friday'', 4), (''saturday'', 5), (''sunday'', 6)]"

text \<open>
  A row of \<^verbatim>\<open>df_schedule\<close> after \<^verbatim>\<open>load_boss_data\<close>: the three columns of the sheet as
  the text that an f-string shows, the parsed time (hour and minute; \<^verbatim>\<open>strptime\<close> with
  \<^verbatim>\<open>'%H:%M'\<close> leaves seconds at zero) and the day in lower case.
\<close>

record row =
  Boss :: string
  Gun :: string
  Saat :: string
  Parsed_Time :: "nat \<times> nat"
  Normalized_Day :: string

text \<open>The cases of the text that \<^verbatim>\<open>update_status_label\<close> is given during a check.\<close>

datatype status =
    Ready
  | NewDay int
  | NoActiveBosses
  | NotificationSent string
  | NextEvent string datetime
  | NoUpcomingEvents

text \<open>
  The fields of \<^verbatim>\<open>BossNotificationApp\<close> that the check reads and writes. The dictionary
  \<^verbatim>\<open>notifications_sent_today\<close> only ever maps a key to \<^verbatim>\<open>True\<close> and is read by
  membership, so it is the set of its keys. \<open>toasts\<close> lists, in order, the notification key
  of every call of \<^verbatim>\<open>show_toast\<close>.
\<close>

record app =
  is_running :: bool
  df_schedule :: "row list option"
  active_bosses :: "(string \<times> bool) list"
  notification_settings :: "(string \<times> bool) list"
  notifications_sent_today :: "string set"
  last_reset_date :: "int option"
  toasts :: "string list"
  status_label :: status

text \<open>The fields as \<^verbatim>\<open>__init__\<close> sets them, before data and settings are loaded.\<close>

definition init_app :: app where
  "init_app = \<lparr>is_running = False, df_schedule = None, active_bosses = [],
     notification_settings = [(''1_min'', False), (''3_min'', False), (''5_min'', False),
       (''10_min'', False), (''15_min'', False), (''30_min'', False), (''60_min'', False)],
     notifications_sent_today = {}, last_reset_date = None, toasts = [],
     status_label = Ready\<rparr>"

text \<open>\<^verbatim>\<open>str\<close> of a natural number.\<close>

fun str_nat :: "nat \<Rightarrow> string" where
  "str_nat n = (if n < 10 then [''0123456789'' ! n]
                else str_nat (n div 10) @ [''0123456789'' ! (n mod 10)])"

declare str_nat.simps [simp del]

text \<open>\<^verbatim>\<open>datetime.combine(date, time)\<close> for a time of hour and minute.\<close>

definition combine :: "int \<Rightarrow> nat \<times> nat \<Rightarrow> datetime" where
  "combine date t = date * DAY + int (fst t) * HOUR + int (snd t) * MINUTE"

text \<open>The event's datetime of a row of today, moved a week on when it has passed.\<close>

definition event_datetime :: "row \<Rightarrow> datetime \<Rightarrow> datetime" where
  "event_datetime r now =
     (let event_datetime = combine (toordinal now) (Parsed_Time r)
      in if event_datetime < now - 10 * SECOND then event_datetime + WEEK else event_datetime)"

definition notification_key :: "row \<Rightarrow> nat \<Rightarrow> string" where
  "notification_key r notify_minutes =
     (let event_id = Boss r @ ''_'' @ Gun r @ ''_'' @ Saat r
      in event_id @ ''_'' @ str_nat notify_minutes @ ''min'')"

text \<open>The condition of the notification, apart from the ledger.\<close>

definition in_interval :: "timedelta \<Rightarrow> nat \<Rightarrow> bool" where
  "in_interval time_diff notify_minutes =
     (let notification_threshold = int notify_minutes * MINUTE
      in notification_threshold \<ge> time_diff
         \<and> time_diff > notification_threshold - 30 * SECOND)"

text \<open>The loop over the sorted notification times of one row; it ends at the first toast.\<close>

fun threshold_loop :: "row \<Rightarrow> timedelta \<Rightarrow> nat list \<Rightarrow> app \<Rightarrow> app" where
  "threshold_loop r time_diff [] st = st"
| "threshold_loop r time_diff (notify_minutes # rest) st =
     (if in_interval time_diff notify_minutes
         \<and> notification_key r notify_minutes \<notin> notifications_sent_today st
      then st\<lparr>toasts := toasts st @ [notification_key r notify_minutes],
              notifications_sent_today :=
                insert (notification_key r notify_minutes) (notifications_sent_today st),
              status_label := NotificationSent (notification_key r notify_minutes)\<rparr>
      else threshold_loop r time_diff rest st)"

text \<open>The loop over the filtered rows, with \<open>next_event_info\<close> and \<open>min_time_diff\<close>.\<close>

fun row_loop ::
  "row list \<Rightarrow> datetime \<Rightarrow> nat list \<Rightarrow> (string \<times> datetime) option \<Rightarrow> timedelta \<Rightarrow> app
     \<Rightarrow> (string \<times> datetime) option \<times> app" where
  "row_loop [] now active_notification_times next_event_info min_time_diff st =
     (next_event_info, st)"
| "row_loop (r # rest) now active_notification_times next_event_info min_time_diff st =
     (let time_diff = event_datetime r now - now;
          st' = threshold_loop r time_diff (rev (sort active_notification_times)) st
      in if time_diff > 0 \<and> time_diff < min_time_diff
         then row_loop rest now active_notification_times
                (Some (Boss r, event_datetime r now)) time_diff st'
         else row_loop rest now active_notification_times next_event_info min_time_diff st')"

text \<open>\<^verbatim>\<open>[NOTIFICATION_TIMES[key] for key, active in settings.items() if active]\<close>.\<close>

fun active_times :: "(string \<times> bool) list \<Rightarrow> error + nat list" where
  "active_times [] = Inr []"
| "active_times ((key, active) # rest) =
     (if active
      then (case map_of NOTIFICATION_TIMES key of
              None \<Rightarrow> Inl KeyError
            | Some m \<Rightarrow> (case active_times rest of Inl e \<Rightarrow> Inl e | Inr ms \<Rightarrow> Inr (m # ms)))
      else active_times rest)"

text \<open>
  The daily reset at the head of the check: on a calendar date other than that of the last
  reset, the history of sent notifications is emptied and the date is recorded.
\<close>

definition daily_reset :: "app \<Rightarrow> datetime \<Rightarrow> app" where
  "daily_reset st now =
     (let today_date = toordinal now
      in if last_reset_date st \<noteq> Some today_date
         then st\<lparr>notifications_sent_today := {}, last_reset_date := Some today_date,
                 status_label := NewDay today_date\<rparr>
         else st)"

definition check_for_notifications :: "app \<Rightarrow> datetime \<Rightarrow> error option \<times> app" where
  "check_for_notifications st now =
     (if \<not> is_running st \<or> df_schedule st = None \<or> df_schedule st = Some [] then (None, st)
      else
        (let current_weekday_num = weekday now;
             st1 = daily_reset st now;
             active_bosses_list = map fst (filter snd (active_bosses st1))
         in if active_bosses_list = [] then (None, st1\<lparr>status_label := NoActiveBosses\<rparr>)
            else
              (let possible_day_names =
                     map fst (filter (\<lambda>(k, v). v = current_weekday_num) WEEKDAY_MAP);
                   filtered_df =
                     filter (\<lambda>r. Normalized_Day r \<in> set possible_day_names
                                 \<and> Boss r \<in> set active_bosses_list)
                       (case df_schedule st1 of None \<Rightarrow> [] | Some rows \<Rightarrow> rows)
               in case active_times (notification_settings st1) of
                    Inl e \<Rightarrow> (Some e, st1)
                  | Inr active_notification_times \<Rightarrow>
                      (case row_loop filtered_df now active_notification_times None (365 * DAY) st1 of
                         (None, st2) \<Rightarrow> (None, st2\<lparr>status_label := NoUpcomingEvents\<rparr>)
                       | (Some (boss_name, next_time), st2) \<Rightarrow>
                           (None, st2\<lparr>status_label := NextEvent boss_name next_time\<rparr>)))))"

text \<open>
  A finite prefix of the scheduled checks, each with the clock reading it sees and the
  settings that the interface has put in place before it.
\<close>

fun checks ::
  "(bool \<times> (string \<times> bool) list \<times> (string \<times> bool) list \<times> datetime) list \<Rightarrow> app
     \<Rightarrow> error option \<times> app" where
  "checks [] st = (None, st)"
| "checks ((running, bosses, settings, now) # rest) st =
     (case check_for_notifications
             (st\<lparr>is_running := running, active_bosses := bosses, notification_settings := settings\<rparr>)
             now of
        (Some e, st') \<Rightarrow> (Some e, st')
      | (None, st') \<Rightarrow> checks rest st')"

section \<open>The policy for several thresholds\<close>


section \<open>Invariants of the two ledgers\<close>

text \<open>
  The worker, at clock reading \<open>t\<close>: no key has been sent twice, and every key that has been
  sent is still in the ledger or belongs to an occurrence that lies at least the retention
  in the past.
\<close>

definition worker_inv :: "datetime \<Rightarrow> worker \<Rightarrow> bool" where
  "worker_inv t w \<longleftrightarrow>
     distinct (sent w)
     \<and> (\<forall>k\<in>set (sent w). k \<in> notified_spawn_times w \<or> fst (snd k) + prune_retention \<le> t)"

text \<open>
  The app, on the calendar day \<open>d\<close>: no key has been shown twice, and when the ledger was
  last reset on \<open>d\<close> every key shown is in it; before the first check of the day nothing has
  been shown.
\<close>

definition app_inv :: "int \<Rightarrow> app \<Rightarrow> bool" where
  "app_inv d st \<longleftrightarrow>
     distinct (toasts st)
     \<and> (if last_reset_date st = Some d then set (toasts st) \<subseteq> notifications_sent_today st
        else toasts st = [])"



section \<open>Properties of the occurrence resolver\<close>

lemma DAY_pos: "0 < DAY" by (simp add: DAY_def HOUR_def MINUTE_def SECOND_def)

lemma toordinal_add_days: "toordinal (dt + k * DAY) = toordinal dt + k"
  using DAY_pos by (simp add: toordinal_def)

lemma midnight_le: "toordinal dt * DAY \<le> dt"
proof -
  have "dt div DAY * DAY + dt mod DAY = dt" by (rule div_mult_mod_eq)
  moreover have "0 \<le> dt mod DAY" using DAY_pos by simp
  ultimately show ?thesis unfolding toordinal_def by linarith
qed

lemma lt_next_midnight: "dt < toordinal dt * DAY + DAY"
proof -
  have "dt div DAY * DAY + dt mod DAY = dt" by (rule div_mult_mod_eq)
  moreover have "dt mod DAY < DAY" using DAY_pos by simp
  ultimately show ?thesis unfolding toordinal_def by linarith
qed


lemma hm_bounds:
  assumes "0 \<le> h" "h < 24" "0 \<le> m" "m < 60"
  shows "0 \<le> h * HOUR + m * MINUTE" and "h * HOUR + m * MINUTE < DAY"
  using assms unfolding DAY_def HOUR_def MINUTE_def SECOND_def by auto

text \<open>What the loop body computes for a well-formed entry.\<close>

lemma candidate_well_formed:
  assumes "DAY_MAPPING (day s) = Some d" "time s = [h, m]" "0 \<le> h" "h < 24" "0 \<le> m" "m < 60"
  shows "spawn_datetime_candidate s now =
           Inr (Some (if (toordinal now + (d - weekday now + 7) mod 7) * DAY + h * HOUR + m * MINUTE \<le> now
                      then (toordinal now + (d - weekday now + 7) mod 7) * DAY + h * HOUR + m * MINUTE + WEEK
                      else (toordinal now + (d - weekday now + 7) mod 7) * DAY + h * HOUR + m * MINUTE))"
  using assms
  by (simp add: spawn_datetime_candidate_def replace_hm_def toordinal_add_days Let_def)

lemma candidate_unknown_day:
  "DAY_MAPPING (day s) = None \<Longrightarrow> spawn_datetime_candidate s now = Inr None"
  by (simp add: spawn_datetime_candidate_def)

lemma candidate_cases:
  assumes "spawn_datetime_candidate s now = Inr (Some c)"
  obtains d h m where "DAY_MAPPING (day s) = Some d" "time s = [h, m]" "0 \<le> h" "h < 24" "0 \<le> m" "m < 60"
  using assms unfolding spawn_datetime_candidate_def replace_hm_def
  by (auto split: option.splits list.splits sum.splits if_splits simp: Let_def)

lemma candidate_future:
  assumes "spawn_datetime_candidate s now = Inr (Some c)"
  shows "now < c"
proof -
  from assms obtain d h m where wf: "DAY_MAPPING (day s) = Some d" "time s = [h, m]"
      "0 \<le> h" "h < 24" "0 \<le> m" "m < 60"
    by (rule candidate_cases)
  let ?k = "(d - weekday now + 7) mod 7"
  let ?c0 = "(toordinal now + ?k) * DAY + h * HOUR + m * MINUTE"
  have c: "c = (if ?c0 \<le> now then ?c0 + WEEK else ?c0)"
    using assms candidate_well_formed[OF wf, of now] by simp
  have "0 \<le> ?k" by simp
  then have "0 \<le> ?k * DAY" using DAY_pos by simp
  moreover have "0 \<le> h * HOUR + m * MINUTE" using hm_bounds(1) wf by simp
  ultimately have "toordinal now * DAY \<le> ?c0" by (simp add: algebra_simps)
  with lt_next_midnight[of now] have "now < ?c0 + WEEK" using DAY_pos by (simp add: WEEK_def)
  with c show ?thesis by (auto split: if_splits)
qed

lemma single_entry:
  "get_next_spawn_time n [s] now = spawn_datetime_candidate s now"
  by (simp add: get_next_spawn_time_def split: sum.splits option.splits)


lemma spawn_loop_min:
  assumes "\<forall>s\<in>set ss. \<exists>r. spawn_datetime_candidate s now = Inr r"
  shows "\<exists>r. spawn_loop ss now acc = Inr r
     \<and> (r = None \<longleftrightarrow> acc = None \<and> (\<forall>s\<in>set ss. spawn_datetime_candidate s now = Inr None))
     \<and> (\<forall>t. r = Some t \<longrightarrow>
           (acc = Some t \<or> (\<exists>s\<in>set ss. spawn_datetime_candidate s now = Inr (Some t)))
         \<and> (\<forall>u. acc = Some u \<longrightarrow> t \<le> u)
         \<and> (\<forall>s\<in>set ss. \<forall>u. spawn_datetime_candidate s now = Inr (Some u) \<longrightarrow> t \<le> u))"
  using assms
proof (induction ss arbitrary: acc)
  case Nil
  then show ?case by auto
next
  case (Cons s ss)
  from Cons.prems obtain r0 where r0: "spawn_datetime_candidate s now = Inr r0" by auto
  from Cons.prems have rest: "\<forall>s\<in>set ss. \<exists>r. spawn_datetime_candidate s now = Inr r" by simp
  show ?case
  proof (cases r0)
    case None
    with r0 Cons.IH[OF rest, of acc] show ?thesis by auto
  next
    case (Some c)
    let ?acc' = "case acc of None \<Rightarrow> Some c | Some n \<Rightarrow> if c < n then Some c else Some n"
    have step: "spawn_loop (s # ss) now acc = spawn_loop ss now ?acc'"
      using r0 Some by simp
    from Cons.IH[OF rest, of ?acc'] obtain r where
      r: "spawn_loop ss now ?acc' = Inr r"
      and rn: "r = None \<longleftrightarrow> ?acc' = None \<and> (\<forall>s\<in>set ss. spawn_datetime_candidate s now = Inr None)"
      and rs: "\<forall>t. r = Some t \<longrightarrow>
           (?acc' = Some t \<or> (\<exists>s\<in>set ss. spawn_datetime_candidate s now = Inr (Some t)))
         \<and> (\<forall>u. ?acc' = Some u \<longrightarrow> t \<le> u)
         \<and> (\<forall>s\<in>set ss. \<forall>u. spawn_datetime_candidate s now = Inr (Some u) \<longrightarrow> t \<le> u)"
      by blast
    have acc': "?acc' \<noteq> None" by (simp split: option.splits)
    from rn acc' obtain t where t: "r = Some t" by auto
    from rs t have a: "?acc' = Some t \<or> (\<exists>s\<in>set ss. spawn_datetime_candidate s now = Inr (Some t))"
      and b: "\<forall>u. ?acc' = Some u \<longrightarrow> t \<le> u"
      and c: "\<forall>s\<in>set ss. \<forall>u. spawn_datetime_candidate s now = Inr (Some u) \<longrightarrow> t \<le> u"
      by auto
    have tc: "t \<le> c" using b by (auto split: option.splits if_splits)
    have tacc: "\<forall>u. acc = Some u \<longrightarrow> t \<le> u" using b by (auto split: option.splits if_splits)
    have att: "acc = Some t \<or> (\<exists>s'\<in>set (s # ss). spawn_datetime_candidate s' now = Inr (Some t))"
      using a r0 Some by (auto split: option.splits if_splits)
    show ?thesis
      unfolding step r t using tc tacc att c r0 Some by auto
  qed
qed

lemma spawn_loop_error:
  assumes "spawn_datetime_candidate s now = Inl e" "s \<in> set ss"
  shows "\<exists>e'. spawn_loop ss now acc = Inl e'"
  using assms by (induction ss arbitrary: acc) (auto split: sum.splits option.splits)

lemma spawn_loop_all_skipped:
  "\<forall>s\<in>set ss. spawn_datetime_candidate s now = Inr None \<Longrightarrow> spawn_loop ss now acc = Inr acc"
  by (induction ss arbitrary: acc) auto

lemma spawn_loop_Inr_no_error:
  assumes "spawn_loop ss now acc = Inr r" and "s \<in> set ss"
  shows "\<exists>r'. spawn_datetime_candidate s now = Inr r'"
proof (cases "spawn_datetime_candidate s now")
  case (Inl e)
  from spawn_loop_error[OF Inl assms(2), of acc] assms(1) show ?thesis by auto
next
  case (Inr r')
  then show ?thesis by blast
qed

lemma next_spawn_future:
  assumes "get_next_spawn_time n sts now = Inr (Some t)"
  shows "now < t"
proof -
  have ok: "\<forall>s\<in>set sts. \<exists>r. spawn_datetime_candidate s now = Inr r"
    using assms spawn_loop_Inr_no_error unfolding get_next_spawn_time_def by blast
  from spawn_loop_min[OF ok, of None] assms
  obtain s where "s \<in> set sts" "spawn_datetime_candidate s now = Inr (Some t)"
    unfolding get_next_spawn_time_def by auto
  then show ?thesis using candidate_future by blast
qed

lemma toordinal_at:
  assumes "0 \<le> x" and "x < DAY"
  shows "toordinal (k * DAY + x) = k"
proof -
  have "(k * DAY + x) div DAY = k + x div DAY" using DAY_pos by simp
  moreover have "x div DAY = 0" using assms by (simp add: div_pos_pos_trivial)
  ultimately show ?thesis by (simp add: toordinal_def)
qed

lemma toordinal_mono: "a \<le> b \<Longrightarrow> toordinal a \<le> toordinal b"
  unfolding toordinal_def using DAY_pos by (simp add: zdiv_mono1)

lemma toordinal_hm:
  assumes "0 \<le> h" and "h < 24" and "0 \<le> m" and "m < 60"
  shows "toordinal (k * DAY + h * HOUR + m * MINUTE) = k"
    and "toordinal (k * DAY + h * HOUR + m * MINUTE + WEEK) = k + 7"
proof -
  note b = hm_bounds[OF assms]
  show "toordinal (k * DAY + h * HOUR + m * MINUTE) = k"
    using toordinal_at[OF b, of k] by (simp add: add.assoc)
  have eq: "k * DAY + h * HOUR + m * MINUTE + WEEK = (k + 7) * DAY + (h * HOUR + m * MINUTE)"
    by (simp add: WEEK_def algebra_simps)
  show "toordinal (k * DAY + h * HOUR + m * MINUTE + WEEK) = k + 7"
    unfolding eq by (rule toordinal_at[OF b])
qed

section \<open>Properties of the worker's window and ledger\<close>

lemma in_window_iff:
  "in_window s m now \<longleftrightarrow> s - int m * MINUTE \<le> now \<and> now < s - int m * MINUTE + arming_width"
  by (auto simp: in_window_def Let_def)

lemma in_window_recent: "in_window s m now \<Longrightarrow> now - arming_width < s"
proof -
  assume "in_window s m now"
  then have "now < s - int m * MINUTE + arming_width" by (simp add: in_window_iff)
  moreover have "0 \<le> int m * MINUTE" by (simp add: MINUTE_def SECOND_def)
  ultimately show ?thesis by linarith
qed

lemma width_lt_retention: "arming_width < prune_retention"
  by (simp add: arming_width_def prune_retention_def MINUTE_def SECOND_def)

lemma prune_iff: "k \<in> prune now ledger \<longleftrightarrow> k \<in> ledger \<and> now - prune_retention < fst (snd k)"
  by (cases k) (auto simp: prune_def)

lemma worker_inv_mono: "worker_inv t w \<Longrightarrow> t \<le> t' \<Longrightarrow> worker_inv t' w"
  unfolding worker_inv_def by fastforce

lemma worker_inv_fire:
  assumes inv: "worker_inv now w" and win: "in_window s m now"
    and new: "(b, s, m) \<notin> notified_spawn_times w"
  shows "worker_inv now (w\<lparr>sent := sent w @ [(b, s, m)],
            notified_spawn_times := insert (b, s, m) (notified_spawn_times w)\<rparr>)"
proof -
  have "(b, s, m) \<notin> set (sent w)"
  proof
    assume "(b, s, m) \<in> set (sent w)"
    with inv new have "s + prune_retention \<le> now" unfolding worker_inv_def by fastforce
    with in_window_recent[OF win] width_lt_retention show False by linarith
  qed
  with inv show ?thesis unfolding worker_inv_def by auto
qed

lemma minutes_loop_inv:
  "worker_inv now w \<Longrightarrow> worker_inv now (minutes_loop b s now ms w)"
proof (induction ms arbitrary: w)
  case Nil
  then show ?case by simp
next
  case (Cons m ms)
  show ?case
  proof (cases "in_window s m now \<and> (b, s, m) \<notin> notified_spawn_times w")
    case True
    then have "worker_inv now (w\<lparr>sent := sent w @ [(b, s, m)],
            notified_spawn_times := insert (b, s, m) (notified_spawn_times w)\<rparr>)"
      using worker_inv_fire Cons.prems by blast
    from Cons.IH[OF this] True show ?thesis by (simp add: Let_def)
  next
    case False
    with Cons.IH[OF Cons.prems] show ?thesis by (auto simp: Let_def)
  qed
qed

lemma notify_boss_inv:
  "worker_inv now w \<Longrightarrow> worker_inv now (snd (notify_boss ids ms now b w))"
  by (auto simp: notify_boss_def minutes_loop_inv split: option.splits sum.splits)

lemma notify_loop_inv:
  "worker_inv now w \<Longrightarrow> worker_inv now (snd (notify_loop bs ids ms now w))"
proof (induction bs arbitrary: w)
  case Nil
  then show ?case by simp
next
  case (Cons b bs)
  obtain e w' where r: "notify_boss ids ms now b w = (e, w')" by (cases "notify_boss ids ms now b w")
  with notify_boss_inv[OF Cons.prems, of ids ms b] have w': "worker_inv now w'" by simp
  show ?case
  proof (cases e)
    case None
    with r Cons.IH[OF w'] show ?thesis by simp
  next
    case (Some a)
    with r w' show ?thesis by simp
  qed
qed

lemma prune_inv:
  assumes "worker_inv now w"
  shows "worker_inv now (w\<lparr>notified_spawn_times := prune now (notified_spawn_times w)\<rparr>)"
  unfolding worker_inv_def
proof (intro conjI ballI)
  show "distinct (sent (w\<lparr>notified_spawn_times := prune now (notified_spawn_times w)\<rparr>))"
    using assms by (simp add: worker_inv_def)
  fix k assume "k \<in> set (sent (w\<lparr>notified_spawn_times := prune now (notified_spawn_times w)\<rparr>))"
  then have k: "k \<in> set (sent w)" by simp
  with assms have "k \<in> notified_spawn_times w \<or> fst (snd k) + prune_retention \<le> now"
    by (simp add: worker_inv_def)
  then show "k \<in> notified_spawn_times (w\<lparr>notified_spawn_times := prune now (notified_spawn_times w)\<rparr>)
      \<or> fst (snd k) + prune_retention \<le> now"
    by (auto simp: prune_iff)
qed

lemma worker_inv_fields:
  "worker_inv t (w\<lparr>live_info := l\<rparr>) = worker_inv t w"
  "worker_inv t (w\<lparr>is_active := a\<rparr>) = worker_inv t w"
  by (simp_all add: worker_inv_def)

lemma tick_inv:
  assumes "worker_inv now w"
  shows "worker_inv now (snd (tick bd ids ms now w))"
proof (cases "live_info_loop bd ids now None []")
  case (Inl e)
  with assms show ?thesis by (simp add: tick_def)
next
  case (Inr c)
  let ?w1 = "w\<lparr>live_info := c\<rparr>"
  have w1: "worker_inv now ?w1" using assms by (simp add: worker_inv_fields)
  show ?thesis
  proof (cases "is_active ?w1")
    case False
    with Inr prune_inv[OF w1] show ?thesis by (simp add: tick_def)
  next
    case True
    obtain e w2 where r: "notify_loop bd ids ms now ?w1 = (e, w2)"
      by (cases "notify_loop bd ids ms now ?w1")
    with notify_loop_inv[OF w1, of bd ids ms] have w2: "worker_inv now w2" by simp
    show ?thesis
    proof (cases e)
      case None
      with Inr True r prune_inv[OF w2] show ?thesis by (simp add: tick_def)
    next
      case (Some a)
      with Inr True r w2 show ?thesis by (simp add: tick_def)
    qed
  qed
qed

lemma run_inv:
  assumes "worker_inv t w" and "sorted (map (\<lambda>i. snd (snd (snd i))) inputs)"
    and "\<forall>i\<in>set inputs. t \<le> snd (snd (snd i))"
  shows "\<exists>t'. worker_inv t' (snd (run bd inputs w))"
  using assms
proof (induction inputs arbitrary: t w)
  case Nil
  then show ?case by auto
next
  case (Cons i inputs)
  obtain ids ms a now where i: "i = (ids, ms, a, now)" by (cases i) auto
  from Cons.prems i have "t \<le> now" by simp
  with Cons.prems(1) have "worker_inv now (w\<lparr>is_active := a\<rparr>)"
    using worker_inv_mono by (simp add: worker_inv_fields)
  from tick_inv[OF this, of bd ids ms] have inv': "worker_inv now (snd (tick bd ids ms now (w\<lparr>is_active := a\<rparr>)))" .
  obtain e w' where r: "tick bd ids ms now (w\<lparr>is_active := a\<rparr>) = (e, w')"
    by (cases "tick bd ids ms now (w\<lparr>is_active := a\<rparr>)")
  show ?case
  proof (cases e)
    case (Some x)
    with r inv' i show ?thesis by auto
  next
    case None
    from Cons.prems(2) i have s: "sorted (map (\<lambda>i. snd (snd (snd i))) inputs)"
      and ge: "\<forall>j\<in>set inputs. now \<le> snd (snd (snd j))" by auto
    from inv' r have "worker_inv now w'" by simp
    from Cons.IH[OF this s ge] r None i show ?thesis by simp
  qed
qed

lemma init_worker_inv: "worker_inv t init_worker"
  by (simp add: worker_inv_def init_worker_def)

text \<open>A boss that both loops pass over can be left out of the data.\<close>

lemma notify_loop_skip:
  assumes "\<And>w. notify_boss ids mins now b w = (None, w)"
  shows "notify_loop (bs1 @ b # bs2) ids mins now w = notify_loop (bs1 @ bs2) ids mins now w"
  using assms by (induction bs1 arbitrary: w) (auto split: prod.splits option.splits)

lemma live_info_loop_skip:
  assumes "\<And>rest e c. live_info_loop (b # rest) ids now e c = live_info_loop rest ids now e c"
  shows "live_info_loop (bs1 @ b # bs2) ids now e c = live_info_loop (bs1 @ bs2) ids now e c"
proof (induction bs1 arbitrary: e c)
  case Nil
  show ?case using assms by simp
next
  case (Cons a bs1)
  show ?case
    by (simp add: Cons.IH split: option.splits sum.splits)
qed

text \<open>Keys of other occurrences in the ledger do not change what the loop sends.\<close>

lemma minutes_loop_other:
  assumes "\<forall>k\<in>K. fst (snd k) \<noteq> s'"
  shows "sent (minutes_loop b s' now ms (w\<lparr>notified_spawn_times := notified_spawn_times w \<union> K\<rparr>))
           = sent (minutes_loop b s' now ms w)
       \<and> notified_spawn_times (minutes_loop b s' now ms (w\<lparr>notified_spawn_times := notified_spawn_times w \<union> K\<rparr>))
           = notified_spawn_times (minutes_loop b s' now ms w) \<union> K"
proof (induction ms arbitrary: w)
  case Nil
  show ?case by simp
next
  case (Cons m ms)
  have notin: "(b, s', m) \<notin> K" using assms by fastforce
  show ?case
  proof (cases "in_window s' m now \<and> (b, s', m) \<notin> notified_spawn_times w")
    case True
    let ?w' = "w\<lparr>sent := sent w @ [(b, s', m)],
                 notified_spawn_times := insert (b, s', m) (notified_spawn_times w)\<rparr>"
    have eq: "(w\<lparr>notified_spawn_times := notified_spawn_times w \<union> K\<rparr>)
                \<lparr>sent := sent w @ [(b, s', m)],
                 notified_spawn_times := insert (b, s', m) (notified_spawn_times w \<union> K)\<rparr>
              = ?w'\<lparr>notified_spawn_times := notified_spawn_times ?w' \<union> K\<rparr>"
      by simp
    show ?thesis
      using True notin Cons.IH[of ?w'] by (simp add: Let_def eq)
  next
    case False
    then show ?thesis using notin Cons.IH[of w] by (auto simp: Let_def)
  qed
qed

section \<open>Properties of the check of app.py\<close>

lemma threshold_loop_inv:
  "app_inv d st \<Longrightarrow> last_reset_date st = Some d \<Longrightarrow>
   app_inv d (threshold_loop r td ms st) \<and> last_reset_date (threshold_loop r td ms st) = Some d"
  by (induction ms) (auto simp: app_inv_def)

lemma row_loop_inv:
  "app_inv d st \<Longrightarrow> last_reset_date st = Some d \<Longrightarrow>
   app_inv d (snd (row_loop rows now ms info mtd st))
   \<and> last_reset_date (snd (row_loop rows now ms info mtd st)) = Some d"
proof (induction rows arbitrary: info mtd st)
  case Nil
  then show ?case by simp
next
  case (Cons r rows)
  let ?st' = "threshold_loop r (event_datetime r now - now) (rev (sort ms)) st"
  from threshold_loop_inv[OF Cons.prems] have a: "app_inv d ?st'" and b: "last_reset_date ?st' = Some d"
    by auto
  from Cons.IH[OF a b] show ?case by (simp add: Let_def)
qed

lemma app_inv_fields:
  "app_inv d (st\<lparr>status_label := s\<rparr>) = app_inv d st"
  "app_inv d (st\<lparr>is_running := a, active_bosses := bs, notification_settings := ns\<rparr>) = app_inv d st"
  by (simp_all add: app_inv_def)

lemma daily_reset_fields:
  "is_running (daily_reset st now) = is_running st"
  "df_schedule (daily_reset st now) = df_schedule st"
  "active_bosses (daily_reset st now) = active_bosses st"
  "notification_settings (daily_reset st now) = notification_settings st"
  "toasts (daily_reset st now) = toasts st"
  "last_reset_date (daily_reset st now) = Some (toordinal now)"
  by (simp_all add: daily_reset_def Let_def)

lemma daily_reset_inv:
  "app_inv d st \<Longrightarrow> toordinal now = d \<Longrightarrow> app_inv d (daily_reset st now)"
  by (auto simp: app_inv_def daily_reset_def Let_def)

text \<open>The outcomes of a check that is past its first guard, from the state after the reset.\<close>

lemma check_result:
  assumes "is_running st" and "df_schedule st = Some sched" and "sched \<noteq> []"
  obtains
    (no_bosses) "map fst (filter snd (active_bosses st)) = []"
      "check_for_notifications st now = (None, (daily_reset st now)\<lparr>status_label := NoActiveBosses\<rparr>)"
  | (key_error) e where "active_times (notification_settings st) = Inl e"
      "check_for_notifications st now = (Some e, daily_reset st now)"
  | (rows) rs ms info st2 label where
      "active_times (notification_settings st) = Inr ms"
      "rs = filter (\<lambda>r. Normalized_Day r \<in> set (map fst (filter (\<lambda>(k, v). v = weekday now) WEEKDAY_MAP))
                            \<and> Boss r \<in> set (map fst (filter snd (active_bosses st)))) sched"
      "row_loop rs now ms None (365 * DAY) (daily_reset st now) = (info, st2)"
      "check_for_notifications st now = (None, st2\<lparr>status_label := label\<rparr>)"
proof -
  have c: "df_schedule st \<noteq> Some []" "df_schedule st \<noteq> None" using assms by auto
  let ?rows = "filter (\<lambda>r. Normalized_Day r \<in> set (map fst (filter (\<lambda>(k, v). v = weekday now) WEEKDAY_MAP))
                            \<and> Boss r \<in> set (map fst (filter snd (active_bosses st)))) sched"
  have unfold: "check_for_notifications st now =
     (if map fst (filter snd (active_bosses st)) = []
      then (None, (daily_reset st now)\<lparr>status_label := NoActiveBosses\<rparr>)
      else case active_times (notification_settings st) of
             Inl e \<Rightarrow> (Some e, daily_reset st now)
           | Inr ms \<Rightarrow>
               (case row_loop ?rows now ms None (365 * DAY) (daily_reset st now) of
                  (None, st2) \<Rightarrow> (None, st2\<lparr>status_label := NoUpcomingEvents\<rparr>)
                | (Some (boss_name, next_time), st2) \<Rightarrow>
                    (None, st2\<lparr>status_label := NextEvent boss_name next_time\<rparr>)))"
    unfolding check_for_notifications_def Let_def daily_reset_fields
    by (simp add: assms(1) c cong: sum.case_cong) (simp add: assms(2) cong: sum.case_cong)
  show ?thesis
  proof (cases "map fst (filter snd (active_bosses st)) = []")
    case True
    with unfold show ?thesis by (intro no_bosses) simp_all
  next
    case ne: False
    show ?thesis
    proof (cases "active_times (notification_settings st)")
      case (Inl e)
      with unfold ne show ?thesis by (intro key_error[of e]) simp_all
    next
      case (Inr ms)
      obtain info st2 where r: "row_loop ?rows now ms None (365 * DAY) (daily_reset st now) = (info, st2)"
        by (cases "row_loop ?rows now ms None (365 * DAY) (daily_reset st now)")
      show ?thesis
      proof (cases info)
        case None
        with unfold ne Inr r show ?thesis by (intro rows[OF Inr refl r, of NoUpcomingEvents]) simp
      next
        case (Some p)
        obtain b t where p: "p = (b, t)" by (cases p)
        with Some unfold ne Inr r show ?thesis by (intro rows[OF Inr refl r, of "NextEvent b t"]) simp
      qed
    qed
  qed
qed

lemma check_inv:
  assumes "app_inv d st" and "toordinal now = d"
  shows "app_inv d (snd (check_for_notifications st now))"
proof (cases "\<not> is_running st \<or> df_schedule st = None \<or> df_schedule st = Some []")
  case True
  with assms show ?thesis by (simp add: check_for_notifications_def)
next
  case False
  then obtain sched where g: "is_running st" "df_schedule st = Some sched" "sched \<noteq> []" by auto
  have i1: "app_inv d (daily_reset st now)" using assms by (rule daily_reset_inv)
  have l1: "last_reset_date (daily_reset st now) = Some d" using assms(2) by (simp add: daily_reset_fields)
  from g show ?thesis
  proof (cases rule: check_result[where now = now])
    case no_bosses
    with i1 show ?thesis by (simp add: app_inv_fields)
  next
    case (key_error e)
    with i1 show ?thesis by simp
  next
    case (rows rs ms info st2 label)
    from row_loop_inv[OF i1 l1, of rs now ms None "365 * DAY"] have "app_inv d st2"
      by (simp add: rows(3))
    with rows(4) show ?thesis by (simp add: app_inv_fields)
  qed
qed

lemma checks_inv:
  assumes "app_inv d st" and "\<forall>i\<in>set inputs. toordinal (snd (snd (snd i))) = d"
  shows "app_inv d (snd (checks inputs st))"
  using assms
proof (induction inputs arbitrary: st)
  case Nil
  then show ?case by simp
next
  case (Cons i inputs)
  obtain a bs ns now where i: "i = (a, bs, ns, now)" by (cases i) auto
  let ?st = "st\<lparr>is_running := a, active_bosses := bs, notification_settings := ns\<rparr>"
  from Cons.prems i have d: "toordinal now = d" by simp
  have "app_inv d ?st" using Cons.prems(1) by (simp add: app_inv_fields)
  from check_inv[OF this d] have inv': "app_inv d (snd (check_for_notifications ?st now))" .
  obtain e st' where r: "check_for_notifications ?st now = (e, st')"
    by (cases "check_for_notifications ?st now")
  show ?case
  proof (cases e)
    case (Some x)
    with r inv' i show ?thesis by simp
  next
    case None
    from inv' r have "app_inv d st'" by simp
    from Cons.IH[OF this] Cons.prems(2) r None i show ?thesis by simp
  qed
qed

lemma threshold_loop_keeps:
  "last_reset_date (threshold_loop r td ms st) = last_reset_date st
   \<and> notifications_sent_today st \<subseteq> notifications_sent_today (threshold_loop r td ms st)"
  by (induction ms) auto

lemma row_loop_keeps:
  "last_reset_date (snd (row_loop rows now ms info mtd st)) = last_reset_date st
   \<and> notifications_sent_today st \<subseteq> notifications_sent_today (snd (row_loop rows now ms info mtd st))"
proof (induction rows arbitrary: info mtd st)
  case Nil
  show ?case by simp
next
  case (Cons r rows)
  let ?st' = "threshold_loop r (event_datetime r now - now) (rev (sort ms)) st"
  from threshold_loop_keeps[of r "event_datetime r now - now" "rev (sort ms)" st]
  have a: "last_reset_date ?st' = last_reset_date st"
    and b: "notifications_sent_today st \<subseteq> notifications_sent_today ?st'" by auto
  show ?case
    using Cons.IH[of _ _ ?st'] a b by (auto simp: Let_def)
qed

lemma check_keeps:
  assumes "is_running st" and "df_schedule st = Some sched" and "sched \<noteq> []"
  shows "last_reset_date (snd (check_for_notifications st now)) = Some (toordinal now)
       \<and> notifications_sent_today (daily_reset st now)
            \<subseteq> notifications_sent_today (snd (check_for_notifications st now))"
  using assms
proof (cases rule: check_result[where now = now])
  case no_bosses
  then show ?thesis by (simp add: daily_reset_fields)
next
  case (key_error e)
  then show ?thesis by (simp add: daily_reset_fields)
next
  case (rows rs ms info st2 label)
  from row_loop_keeps[of rs now ms None "365 * DAY" "daily_reset st now"]
  show ?thesis by (simp add: rows(3,4) daily_reset_fields)
qed

lemma daily_reset_forgets:
  "last_reset_date st \<noteq> Some (toordinal now) \<Longrightarrow>
   daily_reset (st\<lparr>notifications_sent_today := L\<rparr>) now = daily_reset (st\<lparr>notifications_sent_today := {}\<rparr>) now"
  by (simp add: daily_reset_def Let_def)

section \<open>Properties of the loops over the thresholds\<close>





section \<open>What an iteration of the worker sends\<close>









section \<open>What a check of the app shows\<close>





section \<open>The claims\<close>



text \<open>
  Claim C10. When the rule list of a boss is empty or every rule in it has a day name
  that \<^verbatim>\<open>DAY_MAPPING\<close> does not know, \<^verbatim>\<open>get_next_spawn_time\<close> returns \<^verbatim>\<open>None\<close> without
  raising (whatever the times of the rules are), the notification part of the iteration
  passes the boss over with no notification and no exception, and the whole iteration is
  the one that would run without this boss in the data.
\<close>

theorem unresolvable_skipped:
  assumes "spawn_times b = Some sts" and "\<forall>s\<in>set sts. DAY_MAPPING (day s) = None"
  shows "get_next_spawn_time (name b) sts now = Inr None
       \<and> notify_boss ids mins now b w = (None, w)
       \<and> tick (bs1 @ b # bs2) ids mins now w = tick (bs1 @ bs2) ids mins now w"
proof -
  have all: "\<forall>s\<in>set sts. spawn_datetime_candidate s now = Inr None"
    using assms(2) by (simp add: candidate_unknown_day)
  have g: "get_next_spawn_time (name b) sts now = Inr None"
    unfolding get_next_spawn_time_def by (rule spawn_loop_all_skipped[OF all])
  have nb: "notify_boss ids mins now b w' = (None, w')" for w'
    using assms(1) g by (simp add: notify_boss_def)
  have li: "live_info_loop (b # rest) ids now e c = live_info_loop rest ids now e c" for rest e c
    using assms(1) g by simp
  have li_eq: "live_info_loop (bs1 @ b # bs2) ids now None [] = live_info_loop (bs1 @ bs2) ids now None []"
    using li by (rule live_info_loop_skip)
  have nl_eq: "notify_loop (bs1 @ b # bs2) ids mins now w' = notify_loop (bs1 @ bs2) ids mins now w'" for w'
    using nb by (rule notify_loop_skip)
  have "tick (bs1 @ b # bs2) ids mins now w = tick (bs1 @ bs2) ids mins now w"
    unfolding tick_def li_eq nl_eq by (rule refl)
  with g nb show ?thesis by simp
qed

text \<open>The theorem at a boss whose only entry has a day name in another language and a malformed time.\<close>

theorem unresolvable_skipped_witness:
  "get_next_spawn_time ''Vell'' [\<lparr>day = ''Pazar'', time = [16]\<rparr>] (738886 * DAY) = Inr None
   \<and> notify_boss [''vell''] [15] (738886 * DAY)
        \<lparr>boss_id = ''vell'', name = ''Vell'', spawn_times = Some [\<lparr>day = ''Pazar'', time = [16]\<rparr>]\<rparr>
        init_worker = (None, init_worker)
   \<and> tick ([] @ \<lparr>boss_id = ''vell'', name = ''Vell'',
               spawn_times = Some [\<lparr>day = ''Pazar'', time = [16]\<rparr>]\<rparr> # [])
        [''vell''] [15] (738886 * DAY) init_worker
      = tick ([] @ []) [''vell''] [15] (738886 * DAY) init_worker"
  using unresolvable_skipped[of
      "\<lparr>boss_id = ''vell'', name = ''Vell'', spawn_times = Some [\<lparr>day = ''Pazar'', time = [16]\<rparr>]\<rparr>"
      "[\<lparr>day = ''Pazar'', time = [16]\<rparr>]" "738886 * DAY" "[''vell'']" "[15]" init_worker "[]" "[]"]
  by (simp add: DAY_MAPPING_def)

text \<open>
  Claim C6. For a boss with a non-empty list of rules, each of which has a next occurrence
  of its own, \<^verbatim>\<open>get_next_spawn_time\<close> returns the minimum of the next occurrences of the
  rules: the instant it returns is the next occurrence of one of the rules, and no rule
  has an earlier one.
\<close>

theorem next_spawn_is_minimum:
  assumes "sts \<noteq> []"
    and "\<forall>s\<in>set sts. \<exists>u. get_next_spawn_time n [s] now = Inr (Some u)"
  shows "\<exists>t. get_next_spawn_time n sts now = Inr (Some t)
           \<and> (\<exists>s\<in>set sts. get_next_spawn_time n [s] now = Inr (Some t))
           \<and> (\<forall>s\<in>set sts. \<forall>u. get_next_spawn_time n [s] now = Inr (Some u) \<longrightarrow> t \<le> u)"
proof -
  have each: "\<forall>s\<in>set sts. \<exists>u. spawn_datetime_candidate s now = Inr (Some u)"
    using assms(2) by (simp add: single_entry)
  then have ok: "\<forall>s\<in>set sts. \<exists>r. spawn_datetime_candidate s now = Inr r" by blast
  from spawn_loop_min[OF ok, of None] obtain r where
    r: "spawn_loop sts now None = Inr r"
    and rn: "r = None \<longleftrightarrow> (\<forall>s\<in>set sts. spawn_datetime_candidate s now = Inr None)"
    and rs: "\<forall>t. r = Some t \<longrightarrow>
           (\<exists>s\<in>set sts. spawn_datetime_candidate s now = Inr (Some t))
         \<and> (\<forall>s\<in>set sts. \<forall>u. spawn_datetime_candidate s now = Inr (Some u) \<longrightarrow> t \<le> u)"
    by auto
  from assms(1) obtain s0 where "s0 \<in> set sts" by (cases sts) auto
  with each rn have "r \<noteq> None" by fastforce
  then obtain t where t: "r = Some t" by auto
  have g: "get_next_spawn_time n sts now = Inr (Some t)"
    using r t by (simp add: get_next_spawn_time_def)
  show ?thesis
    unfolding single_entry using g rs t by auto
qed

text \<open>The theorem at Monday 09:00 with the rules Wednesday 14:00 and Tuesday 10:30: the result is the Tuesday.\<close>

theorem next_spawn_is_minimum_witness:
  "[\<lparr>day = ''Wednesday'', time = [14, 0]\<rparr>, \<lparr>day = ''Tuesday'', time = [10, 30]\<rparr>] \<noteq> []
   \<and> get_next_spawn_time ''Kzarka'' [\<lparr>day = ''Wednesday'', time = [14, 0]\<rparr>] (738886 * DAY + 9 * HOUR)
        = Inr (Some (738888 * DAY + 14 * HOUR))
   \<and> get_next_spawn_time ''Kzarka'' [\<lparr>day = ''Tuesday'', time = [10, 30]\<rparr>] (738886 * DAY + 9 * HOUR)
        = Inr (Some (738887 * DAY + 10 * HOUR + 30 * MINUTE))
   \<and> get_next_spawn_time ''Kzarka''
        [\<lparr>day = ''Wednesday'', time = [14, 0]\<rparr>, \<lparr>day = ''Tuesday'', time = [10, 30]\<rparr>]
        (738886 * DAY + 9 * HOUR)
        = Inr (Some (738887 * DAY + 10 * HOUR + 30 * MINUTE))"
proof -
  let ?now = "738886 * DAY + 9 * HOUR"
  let ?w = "\<lparr>day = ''Wednesday'', time = [14, 0]\<rparr>"
  let ?t = "\<lparr>day = ''Tuesday'', time = [10, 30]\<rparr>"
  have w: "get_next_spawn_time ''Kzarka'' [?w] ?now = Inr (Some (738888 * DAY + 14 * HOUR))"
    by (simp add: single_entry spawn_datetime_candidate_def replace_hm_def DAY_MAPPING_def
        weekday_def toordinal_def WEEK_def DAY_def HOUR_def MINUTE_def SECOND_def)
  have t: "get_next_spawn_time ''Kzarka'' [?t] ?now = Inr (Some (738887 * DAY + 10 * HOUR + 30 * MINUTE))"
    by (simp add: single_entry spawn_datetime_candidate_def replace_hm_def DAY_MAPPING_def
        weekday_def toordinal_def WEEK_def DAY_def HOUR_def MINUTE_def SECOND_def)
  have cmp: "738887 * DAY + 10 * HOUR + 30 * MINUTE \<le> 738888 * DAY + 14 * HOUR"
    by (simp add: DAY_def HOUR_def MINUTE_def SECOND_def)
  have ne: "[?w, ?t] \<noteq> []" by simp
  have each: "\<forall>s\<in>set [?w, ?t]. \<exists>u. get_next_spawn_time ''Kzarka'' [s] ?now = Inr (Some u)"
    using w t by simp
  from next_spawn_is_minimum[OF ne each] obtain r where
    r: "get_next_spawn_time ''Kzarka'' [?w, ?t] ?now = Inr (Some r)"
    and att: "\<exists>s\<in>set [?w, ?t]. get_next_spawn_time ''Kzarka'' [s] ?now = Inr (Some r)"
    and low: "\<forall>s\<in>set [?w, ?t]. \<forall>u. get_next_spawn_time ''Kzarka'' [s] ?now = Inr (Some u) \<longrightarrow> r \<le> u"
    by blast
  from att w t have "r = 738888 * DAY + 14 * HOUR \<or> r = 738887 * DAY + 10 * HOUR + 30 * MINUTE"
    by auto
  moreover from low t have "r \<le> 738887 * DAY + 10 * HOUR + 30 * MINUTE" by simp
  ultimately have "r = 738887 * DAY + 10 * HOUR + 30 * MINUTE"
    by (auto simp: DAY_def HOUR_def MINUTE_def SECOND_def)
  with r w t ne show ?thesis by simp
qed




text \<open>
  Claim C2, as the code has it. In the worker, whose key holds the occurrence instant, any
  run of iterations from the empty ledger with a clock that never goes back sends no key
  twice (also when an exception ends the run); its loop fires exactly when \<open>now\<close> lies in
  the window from the occurrence minus the minutes to 65 seconds later and the key is not
  in the ledger, and firing records the key. In the app, whose key is a text without a
  date, the checks of one calendar day show no key twice, from any state in which nothing
  has been shown yet; its loop fires exactly when \<open>now\<close> lies in the window of 30 seconds
  and the key is not in the ledger, and firing records the key.
\<close>

theorem fires_once:
  assumes "sorted (map (\<lambda>i. snd (snd (snd i))) inputs)"
    and "\<forall>i\<in>set app_inputs. toordinal (snd (snd (snd i))) = d" and "toasts st = []"
  shows "distinct (sent (snd (run boss_data inputs init_worker)))
       \<and> minutes_loop b s now [m] w =
           (if s - int m * MINUTE \<le> now \<and> now < s - int m * MINUTE + (MINUTE + 5 * SECOND)
               \<and> (b, s, m) \<notin> notified_spawn_times w
            then w\<lparr>sent := sent w @ [(b, s, m)],
                   notified_spawn_times := insert (b, s, m) (notified_spawn_times w)\<rparr>
            else w)
       \<and> distinct (toasts (snd (checks app_inputs st)))
       \<and> threshold_loop r (e - now) [n] st' =
           (if e - int n * MINUTE \<le> now \<and> now < e - int n * MINUTE + 30 * SECOND
               \<and> notification_key r n \<notin> notifications_sent_today st'
            then st'\<lparr>toasts := toasts st' @ [notification_key r n],
                     notifications_sent_today := insert (notification_key r n) (notifications_sent_today st'),
                     status_label := NotificationSent (notification_key r n)\<rparr>
            else st')"
proof -
  have worker: "distinct (sent (snd (run boss_data inputs init_worker)))"
  proof (cases inputs)
    case Nil
    then show ?thesis by (simp add: init_worker_def)
  next
    case (Cons i rest)
    have "\<forall>j\<in>set inputs. snd (snd (snd i)) \<le> snd (snd (snd j))"
      using assms(1) Cons by auto
    from run_inv[OF init_worker_inv assms(1) this, of boss_data]
    show ?thesis by (auto simp: worker_inv_def)
  qed
  have fire: "minutes_loop b s now [m] w =
           (if s - int m * MINUTE \<le> now \<and> now < s - int m * MINUTE + (MINUTE + 5 * SECOND)
               \<and> (b, s, m) \<notin> notified_spawn_times w
            then w\<lparr>sent := sent w @ [(b, s, m)],
                   notified_spawn_times := insert (b, s, m) (notified_spawn_times w)\<rparr>
            else w)"
    by (simp add: in_window_iff arming_width_def Let_def)
  have "app_inv d st" using assms(3) by (simp add: app_inv_def)
  from checks_inv[OF this assms(2)] have app: "distinct (toasts (snd (checks app_inputs st)))"
    by (simp add: app_inv_def)
  have interval: "in_interval (e - now) n \<longleftrightarrow>
      e - int n * MINUTE \<le> now \<and> now < e - int n * MINUTE + 30 * SECOND"
    by (auto simp: in_interval_def Let_def)
  have fire': "threshold_loop r (e - now) [n] st' =
           (if e - int n * MINUTE \<le> now \<and> now < e - int n * MINUTE + 30 * SECOND
               \<and> notification_key r n \<notin> notifications_sent_today st'
            then st'\<lparr>toasts := toasts st' @ [notification_key r n],
                     notifications_sent_today := insert (notification_key r n) (notifications_sent_today st'),
                     status_label := NotificationSent (notification_key r n)\<rparr>
            else st')"
    by (simp add: interval)
  from worker fire app fire' show ?thesis by blast
qed

text \<open>
  The claim as stated fails in app.py: with a clock that only advances, the check of
  Monday 2024-01-01 07:45 and the check one week later both show the toast of the same
  key, since the ledger is cleared at the first check of a new day.
\<close>

theorem weekly_refire_counterexample:
  "sorted [738886 * DAY + 7 * HOUR + 45 * MINUTE, 738893 * DAY + 7 * HOUR + 45 * MINUTE :: int]
   \<and> toasts (snd (checks
       [(True, [(''Kzarka'', True)], [(''1_min'', False), (''3_min'', False), (''5_min'', False), (''10_min'', False), (''15_min'', True), (''30_min'', False), (''60_min'', False)], 738886 * DAY + 7 * HOUR + 45 * MINUTE),
        (True, [(''Kzarka'', True)], [(''1_min'', False), (''3_min'', False), (''5_min'', False), (''10_min'', False), (''15_min'', True), (''30_min'', False), (''60_min'', False)], 738893 * DAY + 7 * HOUR + 45 * MINUTE)]
       (init_app\<lparr>df_schedule := Some [\<lparr>Boss = ''Kzarka'', Gun = ''Monday'', Saat = ''08:00'',
           Parsed_Time = (8, 0), Normalized_Day = ''monday''\<rparr>]\<rparr>)))
     = [''Kzarka_Monday_08:00_15min'', ''Kzarka_Monday_08:00_15min'']"
  by code_simp

text \<open>
  The theorem at two iterations of the worker, 15 seconds apart inside the window of the
  15 minutes notification, and at two such checks of the app: one key is sent, once.
\<close>

theorem fires_once_witness:
  "sorted (map (\<lambda>i. snd (snd (snd i)))
      [([''kz''], [5::nat, 15], True, 738886 * DAY + 7 * HOUR + 45 * MINUTE),
       ([''kz''], [5, 15], True, 738886 * DAY + 7 * HOUR + 45 * MINUTE + 15 * SECOND)])
   \<and> toordinal (738886 * DAY + 7 * HOUR + 45 * MINUTE) = 738886
   \<and> toordinal (738886 * DAY + 7 * HOUR + 45 * MINUTE + 15 * SECOND) = 738886
   \<and> toasts (init_app\<lparr>df_schedule := Some [\<lparr>Boss = ''Kzarka'', Gun = ''Monday'', Saat = ''08:00'',
           Parsed_Time = (8, 0), Normalized_Day = ''monday''\<rparr>]\<rparr>) = []
   \<and> distinct (sent (snd (run
        [\<lparr>boss_id = ''kz'', name = ''Kzarka'', spawn_times = Some [\<lparr>day = ''Monday'', time = [8, 0]\<rparr>]\<rparr>]
        [([''kz''], [5, 15], True, 738886 * DAY + 7 * HOUR + 45 * MINUTE),
         ([''kz''], [5, 15], True, 738886 * DAY + 7 * HOUR + 45 * MINUTE + 15 * SECOND)] init_worker)))
   \<and> sent (snd (run
        [\<lparr>boss_id = ''kz'', name = ''Kzarka'', spawn_times = Some [\<lparr>day = ''Monday'', time = [8, 0]\<rparr>]\<rparr>]
        [([''kz''], [5, 15], True, 738886 * DAY + 7 * HOUR + 45 * MINUTE),
         ([''kz''], [5, 15], True, 738886 * DAY + 7 * HOUR + 45 * MINUTE + 15 * SECOND)] init_worker))
      = [(''kz'', 738886 * DAY + 8 * HOUR, 15)]
   \<and> distinct (toasts (snd (checks
        [(True, [(''Kzarka'', True)], [(''1_min'', False), (''3_min'', False), (''5_min'', False), (''10_min'', False), (''15_min'', True), (''30_min'', False), (''60_min'', False)], 738886 * DAY + 7 * HOUR + 45 * MINUTE),
         (True, [(''Kzarka'', True)], [(''1_min'', False), (''3_min'', False), (''5_min'', False), (''10_min'', False), (''15_min'', True), (''30_min'', False), (''60_min'', False)], 738886 * DAY + 7 * HOUR + 45 * MINUTE + 15 * SECOND)]
        (init_app\<lparr>df_schedule := Some [\<lparr>Boss = ''Kzarka'', Gun = ''Monday'', Saat = ''08:00'',
           Parsed_Time = (8, 0), Normalized_Day = ''monday''\<rparr>]\<rparr>))))
   \<and> toasts (snd (checks
        [(True, [(''Kzarka'', True)], [(''1_min'', False), (''3_min'', False), (''5_min'', False), (''10_min'', False), (''15_min'', True), (''30_min'', False), (''60_min'', False)], 738886 * DAY + 7 * HOUR + 45 * MINUTE),
         (True, [(''Kzarka'', True)], [(''1_min'', False), (''3_min'', False), (''5_min'', False), (''10_min'', False), (''15_min'', True), (''30_min'', False), (''60_min'', False)], 738886 * DAY + 7 * HOUR + 45 * MINUTE + 15 * SECOND)]
        (init_app\<lparr>df_schedule := Some [\<lparr>Boss = ''Kzarka'', Gun = ''Monday'', Saat = ''08:00'',
           Parsed_Time = (8, 0), Normalized_Day = ''monday''\<rparr>]\<rparr>)))
      = [''Kzarka_Monday_08:00_15min'']"
proof -
  let ?inputs = "[([''kz''], [5, 15], True, 738886 * DAY + 7 * HOUR + 45 * MINUTE),
       ([''kz''], [5::nat, 15], True, 738886 * DAY + 7 * HOUR + 45 * MINUTE + 15 * SECOND)]"
  let ?app_inputs = "[(True, [(''Kzarka'', True)], [(''1_min'', False), (''3_min'', False), (''5_min'', False), (''10_min'', False), (''15_min'', True), (''30_min'', False), (''60_min'', False)], 738886 * DAY + 7 * HOUR + 45 * MINUTE),
                (True, [(''Kzarka'', True)], [(''1_min'', False), (''3_min'', False), (''5_min'', False), (''10_min'', False), (''15_min'', True), (''30_min'', False), (''60_min'', False)], 738886 * DAY + 7 * HOUR + 45 * MINUTE + 15 * SECOND)]"
  let ?st = "init_app\<lparr>df_schedule := Some [\<lparr>Boss = ''Kzarka'', Gun = ''Monday'', Saat = ''08:00'',
           Parsed_Time = (8, 0), Normalized_Day = ''monday''\<rparr>]\<rparr>"
  let ?bd = "[\<lparr>boss_id = ''kz'', name = ''Kzarka'', spawn_times = Some [\<lparr>day = ''Monday'', time = [8, 0]\<rparr>]\<rparr>]"
  have h1: "sorted (map (\<lambda>i. snd (snd (snd i))) ?inputs)" by (simp add: SECOND_def)
  have h2: "\<forall>i\<in>set ?app_inputs. toordinal (snd (snd (snd i))) = 738886"
    by (simp add: toordinal_def DAY_def HOUR_def MINUTE_def SECOND_def)
  have h3: "toasts ?st = []" by (simp add: init_app_def)
  have v1: "sent (snd (run ?bd ?inputs init_worker)) = [(''kz'', 738886 * DAY + 8 * HOUR, 15)]"
    by code_simp
  have v2: "toasts (snd (checks ?app_inputs ?st)) = [''Kzarka_Monday_08:00_15min'']"
    by code_simp
  from fires_once[OF h1 h2 h3, of ?bd] have d1: "distinct (sent (snd (run ?bd ?inputs init_worker)))"
    and d2: "distinct (toasts (snd (checks ?app_inputs ?st)))" by blast+
  have o1: "toordinal (738886 * DAY + 7 * HOUR + 45 * MINUTE) = 738886"
    and o2: "toordinal (738886 * DAY + 7 * HOUR + 45 * MINUTE + 15 * SECOND) = 738886"
    using h2 by simp_all
  show ?thesis by (intro conjI) (rule h1 o1 o2 h3 v1 v2 d1 d2)+
qed

text \<open>
  Claim C7. In app.py the ledger and the reset date start empty. A check that passes its
  first guard (the app is running and the schedule is not empty) leaves the reset date at
  the date of \<open>now\<close>. When that date differs from the last reset date, the reset empties
  the ledger, and the whole check is the one that would run from an empty ledger; when the
  dates are equal, nothing is removed from the ledger.
\<close>

theorem ledger_reset_daily:
  assumes "is_running st" and "df_schedule st = Some sched" and "sched \<noteq> []"
  shows "notifications_sent_today init_app = {} \<and> last_reset_date init_app = None
       \<and> last_reset_date (snd (check_for_notifications st now)) = Some (toordinal now)
       \<and> (last_reset_date st \<noteq> Some (toordinal now) \<longrightarrow>
            notifications_sent_today (daily_reset st now) = {}
            \<and> check_for_notifications st now
                = check_for_notifications (st\<lparr>notifications_sent_today := {}\<rparr>) now)
       \<and> (last_reset_date st = Some (toordinal now) \<longrightarrow>
            notifications_sent_today st
              \<subseteq> notifications_sent_today (snd (check_for_notifications st now)))"
proof -
  have init: "notifications_sent_today init_app = {} \<and> last_reset_date init_app = None"
    by (simp add: init_app_def)
  note k = check_keeps[OF assms, of now]
  have same: "check_for_notifications st now
                = check_for_notifications (st\<lparr>notifications_sent_today := {}\<rparr>) now"
    if d: "last_reset_date st \<noteq> Some (toordinal now)"
  proof -
    have "check_for_notifications (st\<lparr>notifications_sent_today := notifications_sent_today st\<rparr>) now
        = check_for_notifications (st\<lparr>notifications_sent_today := {}\<rparr>) now"
      unfolding check_for_notifications_def Let_def daily_reset_fields
        daily_reset_forgets[OF d, of "notifications_sent_today st"]
      by (simp add: assms)
    then show ?thesis by simp
  qed
  have cleared: "notifications_sent_today (daily_reset st now) = {}"
    if "last_reset_date st \<noteq> Some (toordinal now)"
    using that by (simp add: daily_reset_def Let_def)
  have kept: "notifications_sent_today st \<subseteq> notifications_sent_today (snd (check_for_notifications st now))"
    if "last_reset_date st = Some (toordinal now)"
  proof -
    from that have "daily_reset st now = st" by (simp add: daily_reset_def Let_def)
    with k show ?thesis by simp
  qed
  from init k same cleared kept show ?thesis by blast
qed

text \<open>
  The theorem at a state whose ledger holds a key of the Monday before: the check of Monday
  2024-01-01 06:00 empties the ledger and records the date; with the reset date already at
  that day, the check of 09:00 keeps the key.
\<close>

theorem ledger_reset_daily_witness:
  "last_reset_date (snd (check_for_notifications
      \<lparr>is_running = True,
       df_schedule = Some [\<lparr>Boss = ''Kzarka'', Gun = ''Monday'', Saat = ''08:00'',
                              Parsed_Time = (8, 0), Normalized_Day = ''monday''\<rparr>],
       active_bosses = [(''Kzarka'', True)], notification_settings = [(''1_min'', False), (''3_min'', False), (''5_min'', False), (''10_min'', False), (''15_min'', True), (''30_min'', False), (''60_min'', False)],
       notifications_sent_today = {''Kzarka_Monday_08:00_15min''},
       last_reset_date = Some 738879, toasts = [], status_label = Ready\<rparr>
      (738886 * DAY + 6 * HOUR))) = Some 738886
   \<and> notifications_sent_today (snd (check_for_notifications
      \<lparr>is_running = True,
       df_schedule = Some [\<lparr>Boss = ''Kzarka'', Gun = ''Monday'', Saat = ''08:00'',
                              Parsed_Time = (8, 0), Normalized_Day = ''monday''\<rparr>],
       active_bosses = [(''Kzarka'', True)], notification_settings = [(''1_min'', False), (''3_min'', False), (''5_min'', False), (''10_min'', False), (''15_min'', True), (''30_min'', False), (''60_min'', False)],
       notifications_sent_today = {''Kzarka_Monday_08:00_15min''},
       last_reset_date = Some 738879, toasts = [], status_label = Ready\<rparr>
      (738886 * DAY + 6 * HOUR))) = {}
   \<and> notifications_sent_today (snd (check_for_notifications
      \<lparr>is_running = True,
       df_schedule = Some [\<lparr>Boss = ''Kzarka'', Gun = ''Monday'', Saat = ''08:00'',
                              Parsed_Time = (8, 0), Normalized_Day = ''monday''\<rparr>],
       active_bosses = [(''Kzarka'', True)], notification_settings = [(''1_min'', False), (''3_min'', False), (''5_min'', False), (''10_min'', False), (''15_min'', True), (''30_min'', False), (''60_min'', False)],
       notifications_sent_today = {''Kzarka_Monday_08:00_15min''},
       last_reset_date = Some 738886, toasts = [], status_label = Ready\<rparr>
      (738886 * DAY + 9 * HOUR))) = {''Kzarka_Monday_08:00_15min''}"
proof -
  let ?sched = "[\<lparr>Boss = ''Kzarka'', Gun = ''Monday'', Saat = ''08:00'',
                              Parsed_Time = (8, 0), Normalized_Day = ''monday''\<rparr>]"
  let ?old = "\<lparr>is_running = True, df_schedule = Some ?sched,
       active_bosses = [(''Kzarka'', True)], notification_settings = [(''1_min'', False), (''3_min'', False), (''5_min'', False), (''10_min'', False), (''15_min'', True), (''30_min'', False), (''60_min'', False)],
       notifications_sent_today = {''Kzarka_Monday_08:00_15min''},
       last_reset_date = Some 738879, toasts = [], status_label = Ready\<rparr>"
  let ?same = "\<lparr>is_running = True, df_schedule = Some ?sched,
       active_bosses = [(''Kzarka'', True)], notification_settings = [(''1_min'', False), (''3_min'', False), (''5_min'', False), (''10_min'', False), (''15_min'', True), (''30_min'', False), (''60_min'', False)],
       notifications_sent_today = {''Kzarka_Monday_08:00_15min''},
       last_reset_date = Some 738886, toasts = [], status_label = Ready\<rparr>"
  have o1: "toordinal (738886 * DAY + 6 * HOUR) = 738886"
    and o2: "toordinal (738886 * DAY + 9 * HOUR) = 738886"
    by (simp_all add: toordinal_def DAY_def HOUR_def MINUTE_def SECOND_def)
  have g: "is_running ?old" "df_schedule ?old = Some ?sched" "?sched \<noteq> []"
    and g': "is_running ?same" "df_schedule ?same = Some ?sched"
      "last_reset_date ?same = Some 738886" by simp_all
  note a = ledger_reset_daily[OF g, of "738886 * DAY + 6 * HOUR", unfolded o1]
  note b = ledger_reset_daily[OF g'(1,2) g(3), of "738886 * DAY + 9 * HOUR", unfolded o2]
  from b g'(3) have "notifications_sent_today ?same
      \<subseteq> notifications_sent_today (snd (check_for_notifications ?same (738886 * DAY + 9 * HOUR)))"
    by blast
  have v1: "notifications_sent_today (snd (check_for_notifications ?old (738886 * DAY + 6 * HOUR))) = {}"
    by code_simp
  have v2: "notifications_sent_today (snd (check_for_notifications ?same (738886 * DAY + 9 * HOUR)))
      = {''Kzarka_Monday_08:00_15min''}"
    by code_simp
  from a have r1: "last_reset_date (snd (check_for_notifications ?old (738886 * DAY + 6 * HOUR))) = Some 738886"
    by blast
  show ?thesis by (intro conjI) (rule r1 v1 v2)+
qed

text \<open>
  Claim C3, as the code has it. In the worker the key recorded at a firing is the tuple of
  boss, occurrence instant and minutes, so two different occurrences have different keys,
  and a record of one occurrence does not change what the loop sends for another. In the
  app the key is the text made of the boss, the day, the time and the minutes of the row,
  without the occurrence instant; a later occurrence is still not suppressed by an earlier
  record, since the first check on a new date shows the same toasts whatever the ledger
  held before.
\<close>

theorem later_occurrence_not_suppressed:
  assumes "is_running st" and "df_schedule st = Some sched" and "sched \<noteq> []"
    and "last_reset_date st \<noteq> Some (toordinal now)" and "s \<noteq> s'"
  shows "(b, s, m) \<noteq> (b, s', m)
       \<and> sent (minutes_loop b s' now' ms (w\<lparr>notified_spawn_times := insert (b, s, m) (notified_spawn_times w)\<rparr>))
           = sent (minutes_loop b s' now' ms w)
       \<and> notification_key r n = Boss r @ ''_'' @ Gun r @ ''_'' @ Saat r @ ''_'' @ str_nat n @ ''min''
       \<and> toasts (snd (check_for_notifications (st\<lparr>notifications_sent_today := L\<rparr>) now))
           = toasts (snd (check_for_notifications (st\<lparr>notifications_sent_today := {}\<rparr>) now))"
proof -
  have k: "(b, s, m) \<noteq> (b, s', m)" using assms(5) by simp
  have "\<forall>k\<in>{(b, s, m)}. fst (snd k) \<noteq> s'" using assms(5) by simp
  from minutes_loop_other[OF this, of b now' ms w]
  have w: "sent (minutes_loop b s' now' ms (w\<lparr>notified_spawn_times := insert (b, s, m) (notified_spawn_times w)\<rparr>))
           = sent (minutes_loop b s' now' ms w)" by simp
  have key: "notification_key r n = Boss r @ ''_'' @ Gun r @ ''_'' @ Saat r @ ''_'' @ str_nat n @ ''min''"
    by (simp add: notification_key_def Let_def)
  have "check_for_notifications (st\<lparr>notifications_sent_today := L\<rparr>) now
        = check_for_notifications (st\<lparr>notifications_sent_today := {}\<rparr>) now"
    unfolding check_for_notifications_def Let_def daily_reset_fields
      daily_reset_forgets[OF assms(4), of L]
    by (simp add: assms)
  with k w key show ?thesis by simp
qed

text \<open>
  The claim as stated fails in app.py: the occurrences of Monday 2024-01-01 08:00 and of
  Monday 2024-01-08 08:00 are different instants, and the notification of either is recorded
  under the same key.
\<close>

theorem same_key_counterexample:
  "event_datetime \<lparr>Boss = ''Kzarka'', Gun = ''Monday'', Saat = ''08:00'', Parsed_Time = (8, 0),
       Normalized_Day = ''monday''\<rparr> (738886 * DAY + 7 * HOUR + 45 * MINUTE)
     = 738886 * DAY + 8 * HOUR
   \<and> event_datetime \<lparr>Boss = ''Kzarka'', Gun = ''Monday'', Saat = ''08:00'', Parsed_Time = (8, 0),
       Normalized_Day = ''monday''\<rparr> (738893 * DAY + 7 * HOUR + 45 * MINUTE)
     = 738893 * DAY + 8 * HOUR
   \<and> 738886 * DAY + 8 * HOUR \<noteq> 738893 * DAY + 8 * HOUR
   \<and> notifications_sent_today (snd (check_for_notifications
        (init_app\<lparr>is_running := True, active_bosses := [(''Kzarka'', True)],
           notification_settings := [(''1_min'', False), (''3_min'', False), (''5_min'', False), (''10_min'', False), (''15_min'', True), (''30_min'', False), (''60_min'', False)],
           df_schedule := Some [\<lparr>Boss = ''Kzarka'', Gun = ''Monday'', Saat = ''08:00'',
             Parsed_Time = (8, 0), Normalized_Day = ''monday''\<rparr>]\<rparr>)
        (738886 * DAY + 7 * HOUR + 45 * MINUTE)))
     = {''Kzarka_Monday_08:00_15min''}
   \<and> notifications_sent_today (snd (check_for_notifications
        (init_app\<lparr>is_running := True, active_bosses := [(''Kzarka'', True)],
           notification_settings := [(''1_min'', False), (''3_min'', False), (''5_min'', False), (''10_min'', False), (''15_min'', True), (''30_min'', False), (''60_min'', False)],
           df_schedule := Some [\<lparr>Boss = ''Kzarka'', Gun = ''Monday'', Saat = ''08:00'',
             Parsed_Time = (8, 0), Normalized_Day = ''monday''\<rparr>]\<rparr>)
        (738893 * DAY + 7 * HOUR + 45 * MINUTE)))
     = {''Kzarka_Monday_08:00_15min''}"
  by code_simp

text \<open>
  The theorem at the occurrence of 2024-01-01 08:00 with a record of the occurrence one
  week earlier in the ledger: the worker sends the key of the new occurrence, and the app
  shows the toast.
\<close>

theorem later_occurrence_not_suppressed_witness:
  "sent (minutes_loop ''kz'' (738886 * DAY + 8 * HOUR) (738886 * DAY + 7 * HOUR + 45 * MINUTE) [15]
      (init_worker\<lparr>notified_spawn_times :=
          insert (''kz'', 738879 * DAY + 8 * HOUR, 15) (notified_spawn_times init_worker)\<rparr>))
     = [(''kz'', 738886 * DAY + 8 * HOUR, 15)]
   \<and> toasts (snd (check_for_notifications
        (\<lparr>is_running = True,
          df_schedule = Some [\<lparr>Boss = ''Kzarka'', Gun = ''Monday'', Saat = ''08:00'',
                              Parsed_Time = (8, 0), Normalized_Day = ''monday''\<rparr>],
          active_bosses = [(''Kzarka'', True)], notification_settings = [(''1_min'', False), (''3_min'', False), (''5_min'', False), (''10_min'', False), (''15_min'', True), (''30_min'', False), (''60_min'', False)],
          notifications_sent_today = {}, last_reset_date = Some 738879, toasts = [],
          status_label = Ready\<rparr>\<lparr>notifications_sent_today := {''Kzarka_Monday_08:00_15min''}\<rparr>)
        (738886 * DAY + 7 * HOUR + 45 * MINUTE)))
     = [''Kzarka_Monday_08:00_15min'']"
proof -
  let ?sched = "[\<lparr>Boss = ''Kzarka'', Gun = ''Monday'', Saat = ''08:00'',
                              Parsed_Time = (8, 0), Normalized_Day = ''monday''\<rparr>]"
  let ?st = "\<lparr>is_running = True, df_schedule = Some ?sched,
          active_bosses = [(''Kzarka'', True)], notification_settings = [(''1_min'', False), (''3_min'', False), (''5_min'', False), (''10_min'', False), (''15_min'', True), (''30_min'', False), (''60_min'', False)],
          notifications_sent_today = {}, last_reset_date = Some 738879, toasts = [],
          status_label = Ready\<rparr>"
  let ?now = "738886 * DAY + 7 * HOUR + 45 * MINUTE"
  have o: "toordinal ?now = 738886"
    by (simp add: toordinal_def DAY_def HOUR_def MINUTE_def SECOND_def)
  have g: "is_running ?st" "df_schedule ?st = Some ?sched" "?sched \<noteq> []"
    "last_reset_date ?st \<noteq> Some (toordinal ?now)" unfolding o by simp_all
  have ne: "738879 * DAY + 8 * HOUR \<noteq> 738886 * DAY + 8 * HOUR"
    by (simp add: DAY_def HOUR_def MINUTE_def SECOND_def)
  note t = later_occurrence_not_suppressed[OF g ne, of "''kz''" 15 ?now "[15]" init_worker _ _
      "{''Kzarka_Monday_08:00_15min''}"]
  have v1: "sent (minutes_loop ''kz'' (738886 * DAY + 8 * HOUR) ?now [15] init_worker)
      = [(''kz'', 738886 * DAY + 8 * HOUR, 15)]"
    by code_simp
  have v2: "toasts (snd (check_for_notifications (?st\<lparr>notifications_sent_today := {}\<rparr>) ?now))
      = [''Kzarka_Monday_08:00_15min'']"
    by code_simp
  from t v1 v2 show ?thesis by simp
qed

text \<open>
  Claim C1, as the code has it. Let \<open>now\<close> lie after the first day and at least seven days
  before the last day of Python's datetimes, so that no addition or subtraction of the code
  leaves their range. In \<^verbatim>\<open>get_next_spawn_time\<close>, for a rule with a known day and a time of
  day in range, the result is strictly later than \<open>now\<close> and within the range; when the
  candidate (\<open>now\<close> moved on by \<open>(day - weekday now + 7) mod 7\<close> days, with the rule's hour
  and minute and zero seconds) is not later than \<open>now\<close>, the result is the candidate plus
  exactly 7 days, also when candidate and \<open>now\<close> are equal; otherwise it is the candidate.
  Whatever the rules are, an instant that \<^verbatim>\<open>get_next_spawn_time\<close> returns is strictly later
  than \<open>now\<close>. In the check of app.py the candidate of a row is today's date at the row's
  time; it is moved on by exactly 7 days, and is then later than \<open>now\<close>, only when it lies
  more than 10 seconds before \<open>now\<close>, and is kept as it is otherwise; it stays within the
  range.
\<close>

theorem next_occurrence_after_now:
  assumes "DAY_MAPPING (day s) = Some d" and "time s = [h, m]"
    and "0 \<le> h" and "h < 24" and "0 \<le> m" and "m < 60"
    and "MINORDINAL < toordinal now" and "toordinal now + 7 \<le> MAXORDINAL"
    and "fst (Parsed_Time r) < 24" and "snd (Parsed_Time r) < 60"
  shows "(\<exists>t. get_next_spawn_time n [s] now = Inr (Some t) \<and> now < t
            \<and> toordinal t \<le> MAXORDINAL
            \<and> (toordinal (now + (d - weekday now + 7) mod 7 * DAY) * DAY + h * HOUR + m * MINUTE \<le> now
                 \<longrightarrow> t = toordinal (now + (d - weekday now + 7) mod 7 * DAY) * DAY
                          + h * HOUR + m * MINUTE + 7 * DAY)
            \<and> (now < toordinal (now + (d - weekday now + 7) mod 7 * DAY) * DAY + h * HOUR + m * MINUTE
                 \<longrightarrow> t = toordinal (now + (d - weekday now + 7) mod 7 * DAY) * DAY
                          + h * HOUR + m * MINUTE))
       \<and> toordinal (now + (d - weekday now + 7) mod 7 * DAY) \<le> MAXORDINAL
       \<and> (\<forall>t. get_next_spawn_time n sts now = Inr (Some t) \<longrightarrow> now < t)
       \<and> MINORDINAL \<le> toordinal (now - 10 * SECOND)
       \<and> toordinal (event_datetime r now) \<le> MAXORDINAL
       \<and> (combine (toordinal now) (Parsed_Time r) < now - 10 * SECOND
            \<longrightarrow> event_datetime r now = combine (toordinal now) (Parsed_Time r) + 7 * DAY
                \<and> now < event_datetime r now)
       \<and> (now - 10 * SECOND \<le> combine (toordinal now) (Parsed_Time r)
            \<longrightarrow> event_datetime r now = combine (toordinal now) (Parsed_Time r))"
proof -
  let ?k = "(d - weekday now + 7) mod 7"
  let ?c = "toordinal (now + ?k * DAY) * DAY + h * HOUR + m * MINUTE"
  let ?t = "if ?c \<le> now then ?c + WEEK else ?c"
  have k: "0 \<le> ?k" "?k < 7" by simp_all
  have od: "toordinal (now + ?k * DAY) = toordinal now + ?k" by (rule toordinal_add_days)
  have hm: "0 \<le> h * HOUR + m * MINUTE" "h * HOUR + m * MINUTE < DAY"
    using hm_bounds[OF assms(3-6)] by simp_all
  have oc: "toordinal ?c = toordinal now + ?k"
    using toordinal_hm(1)[OF assms(3-6), of "toordinal (now + ?k * DAY)"] od by simp
  have oc7: "toordinal (?c + WEEK) = toordinal now + ?k + 7"
    using toordinal_hm(2)[OF assms(3-6), of "toordinal (now + ?k * DAY)"] od by simp
  have g: "get_next_spawn_time n [s] now = Inr (Some ?t)"
    using candidate_well_formed[OF assms(1-6), of now] by (simp add: single_entry toordinal_add_days)
  from next_spawn_future[OF g] have fut: "now < ?t" .
  have first: "toordinal (now + ?k * DAY) \<le> MAXORDINAL" using od k assms(8) by simp
  have range: "toordinal ?t \<le> MAXORDINAL"
  proof (cases "?c \<le> now")
    case True
    then have "toordinal ?c \<le> toordinal now" by (rule toordinal_mono)
    with oc k have k0: "?k = 0" by simp
    note oc7
    with True k0 assms(8) show ?thesis by simp
  next
    case False
    with oc k assms(8) show ?thesis by simp
  qed
  have worker: "\<exists>t. get_next_spawn_time n [s] now = Inr (Some t) \<and> now < t
            \<and> toordinal t \<le> MAXORDINAL
            \<and> (?c \<le> now \<longrightarrow> t = ?c + 7 * DAY) \<and> (now < ?c \<longrightarrow> t = ?c)"
    using g fut range by (intro exI[of _ ?t]) (auto simp: WEEK_def)
  have any: "\<forall>t. get_next_spawn_time n sts now = Inr (Some t) \<longrightarrow> now < t"
    using next_spawn_future by blast
  let ?e = "combine (toordinal now) (Parsed_Time r)"
  let ?p = "int (fst (Parsed_Time r)) * HOUR + int (snd (Parsed_Time r)) * MINUTE"
  have p: "0 \<le> ?p" "?p < DAY"
    using hm_bounds[of "int (fst (Parsed_Time r))" "int (snd (Parsed_Time r))"] assms(9,10) by simp_all
  have e: "?e = toordinal now * DAY + ?p" by (simp add: combine_def)
  have pt: "0 \<le> int (fst (Parsed_Time r))" "int (fst (Parsed_Time r)) < 24"
    "0 \<le> int (snd (Parsed_Time r))" "int (snd (Parsed_Time r)) < 60"
    using assms(9,10) by simp_all
  have oe: "toordinal ?e = toordinal now"
    using toordinal_hm(1)[OF pt, of "toordinal now"] by (simp add: combine_def)
  have oe7: "toordinal (?e + WEEK) = toordinal now + 7"
    using toordinal_hm(2)[OF pt, of "toordinal now"] by (simp add: combine_def)
  have app_range: "toordinal (event_datetime r now) \<le> MAXORDINAL"
    using oe oe7 assms(8) by (simp add: event_datetime_def Let_def)
  have "toordinal now * DAY \<le> ?e" using p(1) by (simp add: e)
  with lt_next_midnight[of now] have "now < ?e + WEEK"
    using DAY_pos by (simp add: WEEK_def)
  then have app1: "?e < now - 10 * SECOND
            \<longrightarrow> event_datetime r now = ?e + 7 * DAY \<and> now < event_datetime r now"
    by (simp add: event_datetime_def Let_def WEEK_def)
  have app2: "now - 10 * SECOND \<le> ?e \<longrightarrow> event_datetime r now = ?e"
    by (simp add: event_datetime_def Let_def)
  have "(MINORDINAL + 1) * DAY \<le> toordinal now * DAY"
    using assms(7) DAY_pos by simp
  with midnight_le[of now] have "MINORDINAL * DAY + 0 \<le> now - 10 * SECOND"
    by (simp add: algebra_simps DAY_def HOUR_def MINUTE_def SECOND_def)
  from toordinal_mono[OF this] have low: "MINORDINAL \<le> toordinal (now - 10 * SECOND)"
    using toordinal_at[of 0 MINORDINAL] DAY_pos by simp
  from worker first any low app_range app1 app2 show ?thesis by blast
qed

text \<open>
  The claim as stated fails in app.py: for the row Monday 08:00 and \<open>now\<close> equal to Monday
  2024-01-01 08:00:00 the candidate equals \<open>now\<close>, and the event's datetime is neither
  later than \<open>now\<close> nor the candidate plus 7 days.
\<close>

theorem tolerance_counterexample:
  "combine (toordinal (738886 * DAY + 8 * HOUR))
      (Parsed_Time \<lparr>Boss = ''Kzarka'', Gun = ''Monday'', Saat = ''08:00'', Parsed_Time = (8, 0),
         Normalized_Day = ''monday''\<rparr>) \<le> 738886 * DAY + 8 * HOUR
   \<and> \<not> 738886 * DAY + 8 * HOUR
        < event_datetime \<lparr>Boss = ''Kzarka'', Gun = ''Monday'', Saat = ''08:00'', Parsed_Time = (8, 0),
            Normalized_Day = ''monday''\<rparr> (738886 * DAY + 8 * HOUR)
   \<and> event_datetime \<lparr>Boss = ''Kzarka'', Gun = ''Monday'', Saat = ''08:00'', Parsed_Time = (8, 0),
        Normalized_Day = ''monday''\<rparr> (738886 * DAY + 8 * HOUR)
      \<noteq> combine (toordinal (738886 * DAY + 8 * HOUR))
          (Parsed_Time \<lparr>Boss = ''Kzarka'', Gun = ''Monday'', Saat = ''08:00'', Parsed_Time = (8, 0),
             Normalized_Day = ''monday''\<rparr>) + 7 * DAY"
  by (simp add: event_datetime_def combine_def toordinal_def WEEK_def DAY_def HOUR_def MINUTE_def
      SECOND_def)

text \<open>
  The theorem for the rule Monday 08:00 at Monday 08:00:00, where the worker's result is
  the Monday after, and for the row Monday 08:00 at 08:00:11 and at 08:00:10.
\<close>

theorem next_occurrence_after_now_witness:
  "get_next_spawn_time ''Kzarka'' [\<lparr>day = ''Monday'', time = [8, 0]\<rparr>] (738886 * DAY + 8 * HOUR)
      = Inr (Some (738893 * DAY + 8 * HOUR))
   \<and> 738886 * DAY + 8 * HOUR < 738893 * DAY + 8 * HOUR
   \<and> toordinal (738893 * DAY + 8 * HOUR) \<le> MAXORDINAL
   \<and> event_datetime \<lparr>Boss = ''Kzarka'', Gun = ''Monday'', Saat = ''08:00'', Parsed_Time = (8, 0),
        Normalized_Day = ''monday''\<rparr> (738886 * DAY + 8 * HOUR + 11 * SECOND)
      = 738893 * DAY + 8 * HOUR
   \<and> event_datetime \<lparr>Boss = ''Kzarka'', Gun = ''Monday'', Saat = ''08:00'', Parsed_Time = (8, 0),
        Normalized_Day = ''monday''\<rparr> (738886 * DAY + 8 * HOUR + 10 * SECOND)
      = 738886 * DAY + 8 * HOUR"
proof -
  let ?s = "\<lparr>day = ''Monday'', time = [8, 0]\<rparr>"
  let ?r = "\<lparr>Boss = ''Kzarka'', Gun = ''Monday'', Saat = ''08:00'', Parsed_Time = (8, 0),
        Normalized_Day = ''monday''\<rparr>"
  let ?now = "738886 * DAY + 8 * HOUR"
  have d: "DAY_MAPPING (day ?s) = Some 0" by (simp add: DAY_MAPPING_def)
  have t: "time ?s = [8, 0]" by simp
  have wd: "weekday ?now = 0"
    by (simp add: weekday_def toordinal_def DAY_def HOUR_def MINUTE_def SECOND_def)
  have od: "toordinal ?now = 738886"
    by (simp add: toordinal_def DAY_def HOUR_def MINUTE_def SECOND_def)
  have od1: "toordinal (?now + 11 * SECOND) = 738886"
    by (simp add: toordinal_def DAY_def HOUR_def MINUTE_def SECOND_def)
  have od2: "toordinal (?now + 10 * SECOND) = 738886"
    by (simp add: toordinal_def DAY_def HOUR_def MINUTE_def SECOND_def)
  have rg: "MINORDINAL < toordinal ?now" "toordinal ?now + 7 \<le> MAXORDINAL"
    and rg1: "MINORDINAL < toordinal (?now + 11 * SECOND)" "toordinal (?now + 11 * SECOND) + 7 \<le> MAXORDINAL"
    and rg2: "MINORDINAL < toordinal (?now + 10 * SECOND)" "toordinal (?now + 10 * SECOND) + 7 \<le> MAXORDINAL"
    unfolding od od1 od2 by (simp_all add: MINORDINAL_def MAXORDINAL_def)
  have pt: "fst (Parsed_Time ?r) < 24" "snd (Parsed_Time ?r) < 60" by simp_all
  have hm: "(0::int) \<le> 8" "(8::int) < 24" "(0::int) \<le> 0" "(0::int) < 60" by simp_all
  have c1: "combine 738886 (Parsed_Time ?r) = ?now" by (simp add: combine_def)
  note a = next_occurrence_after_now[OF d t hm rg pt, of "''Kzarka''" "[]"]
  note b = next_occurrence_after_now[OF d t hm rg1 pt, of "''Kzarka''" "[]"]
  note c = next_occurrence_after_now[OF d t hm rg2 pt, of "''Kzarka''" "[]"]
  from a obtain u where u: "get_next_spawn_time ''Kzarka'' [?s] ?now = Inr (Some u)"
    and ur: "toordinal u \<le> MAXORDINAL"
    and u7: "toordinal (?now + (0 - weekday ?now + 7) mod 7 * DAY) * DAY + 8 * HOUR + 0 * MINUTE \<le> ?now
                 \<longrightarrow> u = toordinal (?now + (0 - weekday ?now + 7) mod 7 * DAY) * DAY
                          + 8 * HOUR + 0 * MINUTE + 7 * DAY"
    by blast
  from u7 have uv: "u = 738893 * DAY + 8 * HOUR" unfolding wd by (simp add: od)
  have e1: "event_datetime ?r (?now + 11 * SECOND) = 738893 * DAY + 8 * HOUR"
    using b unfolding od1 c1 by (simp add: SECOND_def)
  have e2: "event_datetime ?r (?now + 10 * SECOND) = ?now"
    using c unfolding od2 c1 by (simp add: SECOND_def)
  have lt: "?now < 738893 * DAY + 8 * HOUR" using DAY_pos by simp
  from u uv ur e1 e2 lt show ?thesis by simp
qed




end
